theory Spec2Isabelle
  imports Main
begin

section \<open>Group tasks: data model\<close>

text \<open>
  A shallow embedding of \<^verbatim>\<open>website/server/controllers/api-v3/tasks/groups.js\<close>.
  Documents are records, identifiers are strings, and an \<^verbatim>\<open>undefined\<close> field of a
  document is \<open>None\<close>. Notifications are kept as untyped JavaScript values, because the
  handlers guard every property access on them (\<^verbatim>\<open>notification && notification.data && ...\<close>):
  an entry of the list may be \<^verbatim>\<open>null\<close>, \<^verbatim>\<open>undefined\<close> or an object without \<^verbatim>\<open>data\<close>.
\<close>

type_synonym uuid = string

datatype jsval =
    JUndefined
  | JNull
  | JBool bool
  | JNum int
  | JDate nat
  | JStr string
  | JObj "(string \<times> jsval) list"

text \<open>Truthiness of a value, as \<^verbatim>\<open>&&\<close>, \<^verbatim>\<open>!\<close>, \<^verbatim>\<open>if\<close> and \<^verbatim>\<open>Boolean\<close> read it.\<close>

fun truthy :: "jsval \<Rightarrow> bool" where
  "truthy JUndefined = False"
| "truthy JNull = False"
| "truthy (JBool b) = b"
| "truthy (JNum n) = (n \<noteq> 0)"
| "truthy (JDate d) = True"
| "truthy (JStr s) = (s \<noteq> [])"
| "truthy (JObj kvs) = True"

datatype error =
    ValidationErrors "string list"
  | NotFound string
  | NotAuthorized string
  | BadRequest string
  | TypeError

text \<open>
  Property access \<^verbatim>\<open>v.k\<close>: a \<^verbatim>\<open>TypeError\<close> on \<^verbatim>\<open>null\<close> and \<^verbatim>\<open>undefined\<close>,
  \<^verbatim>\<open>undefined\<close> for a property the value does not have.
\<close>

fun get :: "jsval \<Rightarrow> string \<Rightarrow> error + jsval" where
  "get JUndefined k = Inl TypeError"
| "get JNull k = Inl TypeError"
| "get (JObj kvs) k = Inr (case map_of kvs k of None \<Rightarrow> JUndefined | Some v \<Rightarrow> v)"
| "get v k = Inr JUndefined"

datatype task_type = Habit | Daily | Todo | Reward

fun type_name :: "task_type \<Rightarrow> string" where
  "type_name Habit = ''habit''"
| "type_name Daily = ''daily''"
| "type_name Todo = ''todo''"
| "type_name Reward = ''reward''"

record approval =
  requested :: bool
  requestedDate :: "nat option"
  approved :: bool
  dateApproved :: "nat option"
  approvingUser :: "uuid option"

record task_group =
  tg_id :: "uuid option"
  tg_taskId :: "uuid option"
  tg_approval :: approval

record task =
  t_id :: uuid
  t_type :: task_type
  t_text :: string
  t_completed :: bool
  t_userId :: "uuid option"
  t_group :: task_group

record tasks_order =
  habits :: "uuid list"
  dailys :: "uuid list"
  todos :: "uuid list"
  rewards :: "uuid list"

text \<open>
  \<^verbatim>\<open>group.managers\<close> is an object from user ids to booleans; it is kept as its list of
  key/value pairs, so that \<^verbatim>\<open>Object.keys\<close> and \<^verbatim>\<open>group.managers[id]\<close> both read it.
\<close>

record group =
  g_id :: uuid
  g_leader :: uuid
  g_managers :: "(uuid \<times> bool) list"
  g_name :: string
  g_tasksOrder :: tasks_order

record profile =
  p_name :: string

record preferences =
  language :: "string option"

record user =
  u_id :: uuid
  u_profile :: profile
  u_preferences :: preferences
  u_notifications :: "jsval list"

section \<open>Authorization\<close>

text \<open>
  \<^verbatim>\<open>canNotEditTasks (group, user, assignedUserId)\<close>. A call with two arguments passes
  \<open>JUndefined\<close> as the third.
\<close>

definition canNotEditTasks :: "group \<Rightarrow> user \<Rightarrow> jsval \<Rightarrow> bool" where
  "canNotEditTasks grp usr assignedUserId =
     (let isNotGroupLeader = (g_leader grp \<noteq> u_id usr);
          isManager = (case map_of (g_managers grp) (u_id usr) of None \<Rightarrow> False | Some v \<Rightarrow> v);
          userIsAssigningToSelf = (truthy assignedUserId \<and> JStr (u_id usr) = assignedUserId)
      in isNotGroupLeader \<and> \<not> isManager \<and> \<not> userIsAssigningToSelf)"

section \<open>Scanning a notification list\<close>

text \<open>
  The callback of both scans:
  \<^verbatim>\<open>notification && notification.data && notification.data.taskId === task._id
     && notification.type === 'GROUP_TASK_APPROVAL'\<close>.
  \<^verbatim>\<open>&&\<close> stops at the first falsy operand; the result is the truthiness that
  \<^verbatim>\<open>findIndex\<close> reads.
\<close>

definition findNotification :: "uuid \<Rightarrow> jsval \<Rightarrow> error + bool" where
  "findNotification taskId notification =
     (if \<not> truthy notification then Inr False
      else case get notification ''data'' of
        Inl e \<Rightarrow> Inl e
      | Inr d \<Rightarrow>
          if \<not> truthy d then Inr False
          else case get d ''taskId'' of
            Inl e \<Rightarrow> Inl e
          | Inr tid \<Rightarrow>
              if tid \<noteq> JStr taskId then Inr False
              else case get notification ''type'' of
                Inl e \<Rightarrow> Inl e
              | Inr ty \<Rightarrow> Inr (ty = JStr ''GROUP_TASK_APPROVAL''))"

text \<open>\<^verbatim>\<open>Array.prototype.findIndex\<close>: the first index whose element satisfies the callback, else -1.\<close>

fun findIndexFrom :: "('a \<Rightarrow> error + bool) \<Rightarrow> int \<Rightarrow> 'a list \<Rightarrow> error + int" where
  "findIndexFrom p i [] = Inr (- 1)"
| "findIndexFrom p i (x # xs) =
     (case p x of
        Inl e \<Rightarrow> Inl e
      | Inr b \<Rightarrow> if b then Inr i else findIndexFrom p (i + 1) xs)"

definition findIndex :: "('a \<Rightarrow> error + bool) \<Rightarrow> 'a list \<Rightarrow> error + int" where
  "findIndex p xs = findIndexFrom p 0 xs"

text \<open>\<^verbatim>\<open>array[i]\<close>: \<^verbatim>\<open>undefined\<close> outside the array (index -1 included).\<close>

definition at :: "jsval list \<Rightarrow> int \<Rightarrow> jsval" where
  "at xs i = (if 0 \<le> i \<and> i < int (length xs) then xs ! nat i else JUndefined)"

text \<open>\<^verbatim>\<open>array.splice(start, 1)\<close>; a negative start counts from the end.\<close>

definition splice1 :: "int \<Rightarrow> 'a list \<Rightarrow> 'a list" where
  "splice1 start xs =
     (let n = int (length xs);
          s = (if start < 0 then max (n + start) 0 else min start n)
      in take (nat s) xs @ drop (nat s + 1) xs)"

section \<open>Collaborators\<close>

text \<open>
  The store the handlers read. \<^verbatim>\<open>Group.getGroup\<close> and \<^verbatim>\<open>Task.findByIdOrAlias\<close> belong to
  the models, whose code is not part of this file; they are taken as they come, as functions
  of their arguments.
\<close>

record store =
  users :: "user list"
  tasks :: "task list"
  getGroup :: "user \<Rightarrow> uuid option \<Rightarrow> group option"
  findByIdOrAlias :: "string \<Rightarrow> uuid \<Rightarrow> task option"

text \<open>
  What a request brings along: the validators of the parameter checks, \<^verbatim>\<open>Number\<close>,
  the translation function \<^verbatim>\<open>res.t (key, vars, language)\<close>, the clock read by
  \<^verbatim>\<open>new Date()\<close>, and the library functions \<^verbatim>\<open>moveTask\<close> and \<^verbatim>\<open>group.syncTask\<close>.
\<close>

record env =
  notEmpty :: "string \<Rightarrow> bool"
  isUUID :: "string \<Rightarrow> bool"
  isNumeric :: "string \<Rightarrow> bool"
  toNumber :: "string \<Rightarrow> int"
  t :: "string \<Rightarrow> (string \<times> string) list \<Rightarrow> string option \<Rightarrow> string"
  now :: nat
  moveTask :: "uuid list \<Rightarrow> uuid \<Rightarrow> int \<Rightarrow> uuid list"
  syncTask :: "group \<Rightarrow> task \<Rightarrow> user option \<Rightarrow> task"

text \<open>
  The writes a handler issues, in the order it issues them: \<^verbatim>\<open>document.save()\<close> for a
  user, a task, a group or a chat message, and the call of \<^verbatim>\<open>group.syncTask\<close>.
  A handler returns the writes issued so far together with its response or the error thrown.
\<close>

datatype effect =
    SaveUser user
  | SaveTask task
  | SaveGroup group
  | SaveMessage uuid string
  | SyncTask uuid task "user option"

text \<open>\<^verbatim>\<open>User.findById (id)\<close>.\<close>

definition User_findById :: "store \<Rightarrow> uuid \<Rightarrow> user option" where
  "User_findById st uid = find (\<lambda>u. u_id u = uid) (users st)"

text \<open>\<^verbatim>\<open>User.find ({_id: ids})\<close>: the stored users whose id is among \<open>ids\<close>, in store order.\<close>

definition User_find :: "store \<Rightarrow> uuid list \<Rightarrow> user list" where
  "User_find st ids = filter (\<lambda>u. u_id u \<in> set ids) (users st)"

text \<open>\<^verbatim>\<open>Tasks.Task.findOne ({_id: taskId})\<close>.\<close>

definition Task_findOne_id :: "store \<Rightarrow> uuid \<Rightarrow> task option" where
  "Task_findOne_id st taskId = find (\<lambda>d. t_id d = taskId) (tasks st)"

text \<open>\<^verbatim>\<open>Tasks.Task.findOne ({'group.taskId': taskId, userId: assignedUserId})\<close>.\<close>

definition Task_findOne :: "store \<Rightarrow> uuid \<Rightarrow> uuid \<Rightarrow> task option" where
  "Task_findOne st taskId assignedUserId =
     find (\<lambda>d. tg_taskId (t_group d) = Some taskId \<and> t_userId d = Some assignedUserId) (tasks st)"

text \<open>
  Modelled from the spec: \<^verbatim>\<open>user.addNotification (type, data)\<close> is a method of the user
  model, which is not in this file. The spec's \<^verbatim>\<open>append (user, kind, payload)\<close> adds a
  notification of that kind and payload to the end of the user's notification list.
\<close>

definition addNotification :: "string \<Rightarrow> jsval \<Rightarrow> user \<Rightarrow> user" where
  "addNotification ty d usr =
     usr\<lparr>u_notifications := u_notifications usr @ [JObj [(''type'', JStr ty), (''data'', d)]]\<rparr>"

text \<open>
  Modelled from the spec: \<^verbatim>\<open>save (task)\<close> of the task store. The stored document with the
  saved document's \<^verbatim>\<open>_id\<close> is replaced by it.
\<close>

definition Task_save :: "task \<Rightarrow> task list \<Rightarrow> task list" where
  "Task_save d ds = map (\<lambda>x. if t_id x = t_id d then d else x) ds"

text \<open>
  Modelled from the spec: \<^verbatim>\<open>save (user)\<close> of the user store, in the same way.
\<close>

definition User_save :: "user \<Rightarrow> user list \<Rightarrow> user list" where
  "User_save d ds = map (\<lambda>x. if u_id x = u_id d then d else x) ds"

text \<open>
  The store after a handler's writes, applied in the order they were issued. Groups and chat
  messages are not held in the store record, and what \<^verbatim>\<open>group.syncTask\<close> writes is not known
  here, so these writes leave the users and the tasks as they are.
\<close>

fun applyEffect :: "effect \<Rightarrow> store \<Rightarrow> store" where
  "applyEffect (SaveUser d) st = st\<lparr>users := User_save d (users st)\<rparr>"
| "applyEffect (SaveTask d) st = st\<lparr>tasks := Task_save d (tasks st)\<rparr>"
| "applyEffect (SaveGroup g) st = st"
| "applyEffect (SaveMessage gid m) st = st"
| "applyEffect (SyncTask gid d u) st = st"

definition commit :: "effect list \<Rightarrow> store \<Rightarrow> store" where
  "commit effs st = fold applyEffect effs st"

text \<open>
  One parameter check, \<^verbatim>\<open>req.checkParams (name, msg).v1 ().v2 ()\<close>: every validator of the chain
  that fails reports the message once.
\<close>

definition checkParams :: "bool list \<Rightarrow> string \<Rightarrow> string list" where
  "checkParams oks msg = concat (map (\<lambda>ok. if ok then [] else [msg]) oks)"

text \<open>A task document as the value that travels in a notification's payload.\<close>

definition optStr :: "string option \<Rightarrow> jsval" where
  "optStr v = (case v of None \<Rightarrow> JUndefined | Some s \<Rightarrow> JStr s)"

definition optDate :: "nat option \<Rightarrow> jsval" where
  "optDate v = (case v of None \<Rightarrow> JUndefined | Some d \<Rightarrow> JDate d)"

definition approvalJS :: "approval \<Rightarrow> jsval" where
  "approvalJS a = JObj
     [(''requested'', JBool (requested a)),
      (''requestedDate'', optDate (requestedDate a)),
      (''approved'', JBool (approved a)),
      (''dateApproved'', optDate (dateApproved a)),
      (''approvingUser'', optStr (approvingUser a))]"

definition taskJS :: "task \<Rightarrow> jsval" where
  "taskJS d = JObj
     [(''_id'', JStr (t_id d)),
      (''type'', JStr (type_name (t_type d))),
      (''text'', JStr (t_text d)),
      (''completed'', JBool (t_completed d)),
      (''userId'', optStr (t_userId d)),
      (''group'', JObj
         [(''id'', optStr (tg_id (t_group d))),
          (''taskId'', optStr (tg_taskId (t_group d))),
          (''approval'', approvalJS (tg_approval (t_group d)))])]"

section \<open>Clearing the pending approval notifications\<close>

text \<open>
  \<^verbatim>\<open>// Get task direction\<close>: the scan of the first manager's notifications, and the
  \<^verbatim>\<open>direction\<close> of the entry found; \<^verbatim>\<open>'up'\<close> when the entry at the index is falsy.
\<close>

definition getTaskDirection :: "uuid \<Rightarrow> jsval list \<Rightarrow> error + jsval" where
  "getTaskDirection taskId firstManagerNotifications =
     (case findIndex (findNotification taskId) firstManagerNotifications of
        Inl e \<Rightarrow> Inl e
      | Inr firstNotificationIndex \<Rightarrow>
          if truthy (at firstManagerNotifications firstNotificationIndex)
          then get (at firstManagerNotifications firstNotificationIndex) ''direction''
          else Inr (JStr ''up''))"

text \<open>
  \<^verbatim>\<open>// Remove old notifications\<close>: the \<^verbatim>\<open>managers.forEach\<close> of both handlers. It returns
  the manager documents as the loop leaves them, the saves it has issued, and the error that
  stopped it, if any.
\<close>

fun removeOldNotifications :: "uuid \<Rightarrow> user list \<Rightarrow> user list \<times> effect list \<times> error option" where
  "removeOldNotifications taskId [] = ([], [], None)"
| "removeOldNotifications taskId (manager # rest) =
     (case findIndex (findNotification taskId) (u_notifications manager) of
        Inl e \<Rightarrow> (manager # rest, [], Some e)
      | Inr notificationIndex \<Rightarrow>
          (let manager' = manager\<lparr>u_notifications := splice1 notificationIndex (u_notifications manager)\<rparr>;
               (rest', promises, err) = removeOldNotifications taskId rest
           in if notificationIndex \<noteq> - 1
              then (manager' # rest', SaveUser manager' # promises, err)
              else (manager # rest', promises, err)))"

section \<open>The handlers\<close>

text \<open>\<^verbatim>\<open>group.tasksOrder[`${task.type}s`]\<close>, read and written.\<close>

fun bucket :: "task_type \<Rightarrow> tasks_order \<Rightarrow> uuid list" where
  "bucket Habit ord = habits ord"
| "bucket Daily ord = dailys ord"
| "bucket Todo ord = todos ord"
| "bucket Reward ord = rewards ord"

fun bucket_update :: "task_type \<Rightarrow> uuid list \<Rightarrow> tasks_order \<Rightarrow> tasks_order" where
  "bucket_update Habit ids ord = ord\<lparr>habits := ids\<rparr>"
| "bucket_update Daily ids ord = ord\<lparr>dailys := ids\<rparr>"
| "bucket_update Todo ids ord = ord\<lparr>todos := ids\<rparr>"
| "bucket_update Reward ids ord = ord\<lparr>rewards := ids\<rparr>"

text \<open>\<^verbatim>\<open>api.groupMoveTask\<close>; it responds with the new order.\<close>

definition groupMoveTask ::
  "env \<Rightarrow> store \<Rightarrow> user \<Rightarrow> string \<Rightarrow> string \<Rightarrow> effect list \<times> (error + uuid list)" where
  "groupMoveTask e st usr taskId position =
     (let reqValidationErrors =
            checkParams [notEmpty e taskId] (t e ''taskIdRequired'' [] None) @
            checkParams [notEmpty e position, isNumeric e position] (t e ''positionRequired'' [] None)
      in if reqValidationErrors \<noteq> [] then ([], Inl (ValidationErrors reqValidationErrors))
      else
        let to = toNumber e position in
        case Task_findOne_id st taskId of
          None \<Rightarrow> ([], Inl (NotFound (t e ''taskNotFound'' [] None)))
        | Some tsk \<Rightarrow>
            if t_type tsk = Todo \<and> t_completed tsk
            then ([], Inl (BadRequest (t e ''cantMoveCompletedTodo'' [] None)))
            else
              case getGroup st usr (tg_id (t_group tsk)) of
                None \<Rightarrow> ([], Inl (NotFound (t e ''groupNotFound'' [] None)))
              | Some grp \<Rightarrow>
                  if g_leader grp \<noteq> u_id usr
                  then ([], Inl (NotAuthorized (t e ''onlyGroupLeaderCanEditTasks'' [] None)))
                  else
                    let order = moveTask e (bucket (t_type tsk) (g_tasksOrder grp)) (t_id tsk) to;
                        grp' = grp\<lparr>g_tasksOrder := bucket_update (t_type tsk) order (g_tasksOrder grp)\<rparr>
                    in ([SaveGroup grp'], Inr order))"

text \<open>\<^verbatim>\<open>api.assignTask\<close>.\<close>

definition assignTask ::
  "env \<Rightarrow> store \<Rightarrow> user \<Rightarrow> string \<Rightarrow> string \<Rightarrow> effect list \<times> (error + task)" where
  "assignTask e st usr taskId assignedUserId =
     (let reqValidationErrors =
            checkParams [notEmpty e taskId, isUUID e taskId] (t e ''taskIdRequired'' [] None) @
            checkParams [notEmpty e assignedUserId, isUUID e assignedUserId] (t e ''userIdRequired'' [] None)
      in if reqValidationErrors \<noteq> [] then ([], Inl (ValidationErrors reqValidationErrors))
      else
        let assignedUser = User_findById st assignedUserId in
        case findByIdOrAlias st taskId (u_id usr) of
          None \<Rightarrow> ([], Inl (NotFound (t e ''taskNotFound'' [] None)))
        | Some tsk \<Rightarrow>
            if \<not> truthy (optStr (tg_id (t_group tsk)))
            then ([], Inl (NotAuthorized (t e ''onlyGroupTasksCanBeAssigned'' [] None)))
            else
              case getGroup st usr (tg_id (t_group tsk)) of
                None \<Rightarrow> ([], Inl (NotFound (t e ''groupNotFound'' [] None)))
              | Some grp \<Rightarrow>
                  if canNotEditTasks grp usr (JStr assignedUserId)
                  then ([], Inl (NotAuthorized (t e ''onlyGroupLeaderCanEditTasks'' [] None)))
                  else
                    let promises =
                          (if u_id usr = assignedUserId
                           then [SaveMessage (g_id grp)
                                   (t e ''userIsClamingTask''
                                      [(''username'', p_name (u_profile usr)), (''task'', t_text tsk)] None)]
                           else [])
                    in (promises @ [SyncTask (g_id grp) tsk assignedUser, SaveGroup grp],
                        Inr (syncTask e grp tsk assignedUser)))"

text \<open>\<^verbatim>\<open>api.approveTask\<close>.\<close>

definition approveTask ::
  "env \<Rightarrow> store \<Rightarrow> user \<Rightarrow> string \<Rightarrow> string \<Rightarrow> effect list \<times> (error + task)" where
  "approveTask e st usr taskId userId =
     (let reqValidationErrors =
            checkParams [notEmpty e taskId, isUUID e taskId] (t e ''taskIdRequired'' [] None) @
            checkParams [notEmpty e userId, isUUID e userId] (t e ''userIdRequired'' [] None)
      in if reqValidationErrors \<noteq> [] then ([], Inl (ValidationErrors reqValidationErrors))
      else
        let assignedUserId = userId;
            assignedUser = User_findById st assignedUserId
        in
        case Task_findOne st taskId assignedUserId of
          None \<Rightarrow> ([], Inl (NotFound (t e ''taskNotFound'' [] None)))
        | Some tsk \<Rightarrow>
            case getGroup st usr (tg_id (t_group tsk)) of
              None \<Rightarrow> ([], Inl (NotFound (t e ''groupNotFound'' [] None)))
            | Some grp \<Rightarrow>
                if canNotEditTasks grp usr JUndefined
                then ([], Inl (NotAuthorized (t e ''onlyGroupLeaderCanEditTasks'' [] None)))
                else if approved (tg_approval (t_group tsk))
                then ([], Inl (NotAuthorized (t e ''canOnlyApproveTaskOnce'' [] None)))
                else
                  let tsk' = tsk\<lparr>t_group := (t_group tsk)\<lparr>tg_approval := (tg_approval (t_group tsk))
                               \<lparr>dateApproved := Some (now e),
                                approvingUser := Some (u_id usr),
                                approved := True\<rparr>\<rparr>\<rparr>;
                      managerIds = map fst (g_managers grp) @ [g_leader grp];
                      managers = User_find st managerIds
                  in
                  case managers of
                    [] \<Rightarrow> ([], Inl TypeError)
                  | firstManager # _ \<Rightarrow>
                      case getTaskDirection (t_id tsk') (u_notifications firstManager) of
                        Inl err \<Rightarrow> ([], Inl err)
                      | Inr direction \<Rightarrow>
                          case removeOldNotifications (t_id tsk') managers of
                            (managers', managerPromises, Some err) \<Rightarrow> (managerPromises, Inl err)
                          | (managers', managerPromises, None) \<Rightarrow>
                              case assignedUser of
                                None \<Rightarrow> (managerPromises, Inl TypeError)
                              | Some au \<Rightarrow>
                                  let au1 = addNotification ''GROUP_TASK_APPROVED''
                                              (JObj [(''message'', JStr (t e ''yourTaskHasBeenApproved''
                                                                           [(''taskText'', t_text tsk')] None)),
                                                     (''groupId'', JStr (g_id grp))]) au;
                                      au2 = addNotification ''SCORED_TASK''
                                              (JObj [(''message'', JStr (t e ''yourTaskHasBeenApproved''
                                                                           [(''taskText'', t_text tsk')] None)),
                                                     (''scoreTask'', taskJS tsk'),
                                                     (''direction'', direction)]) au1
                                  in (managerPromises @ [SaveTask tsk', SaveUser au2], Inr tsk'))"

text \<open>\<^verbatim>\<open>api.taskNeedsWork\<close>.\<close>

definition taskNeedsWork ::
  "env \<Rightarrow> store \<Rightarrow> user \<Rightarrow> string \<Rightarrow> string \<Rightarrow> effect list \<times> (error + task)" where
  "taskNeedsWork e st usr taskId userId =
     (let reqValidationErrors =
            checkParams [notEmpty e taskId, isUUID e taskId] (t e ''taskIdRequired'' [] None) @
            checkParams [notEmpty e userId, isUUID e userId] (t e ''userIdRequired'' [] None)
      in if reqValidationErrors \<noteq> [] then ([], Inl (ValidationErrors reqValidationErrors))
      else
        let assignedUserId = userId;
            assignedUser = User_findById st assignedUserId
        in
        case Task_findOne st taskId assignedUserId of
          None \<Rightarrow> ([], Inl (NotFound (t e ''taskNotFound'' [] None)))
        | Some tsk \<Rightarrow>
            case getGroup st usr (tg_id (t_group tsk)) of
              None \<Rightarrow> ([], Inl (NotFound (t e ''groupNotFound'' [] None)))
            | Some grp \<Rightarrow>
                if canNotEditTasks grp usr JUndefined
                then ([], Inl (NotAuthorized (t e ''onlyGroupLeaderCanEditTasks'' [] None)))
                else if approved (tg_approval (t_group tsk))
                then ([], Inl (NotAuthorized (t e ''canOnlyApproveTaskOnce'' [] None)))
                else if \<not> requested (tg_approval (t_group tsk))
                then ([], Inl (NotAuthorized (t e ''taskApprovalWasNotRequested'' [] None)))
                else
                  let managerIds = map fst (g_managers grp) @ [g_leader grp];
                      managers = User_find st managerIds
                  in
                  case removeOldNotifications (t_id tsk) managers of
                    (managers', promises, Some err) \<Rightarrow> (promises, Inl err)
                  | (managers', promises, None) \<Rightarrow>
                      let tsk' = tsk\<lparr>t_group := (t_group tsk)\<lparr>tg_approval := (tg_approval (t_group tsk))
                                   \<lparr>requested := False, requestedDate := None\<rparr>\<rparr>\<rparr>;
                          taskText = t_text tsk';
                          managerName = p_name (u_profile usr)
                      in
                      case assignedUser of
                        None \<Rightarrow> (promises, Inl TypeError)
                      | Some au \<Rightarrow>
                          let message = t e ''taskNeedsWork''
                                          [(''taskText'', taskText), (''managerName'', managerName)]
                                          (language (u_preferences au));
                              au' = addNotification ''GROUP_TASK_NEEDS_WORK''
                                      (JObj [(''message'', JStr message),
                                             (''task'', JObj [(''id'', JStr (t_id tsk')), (''text'', JStr taskText)]),
                                             (''group'', JObj [(''id'', JStr (g_id grp)), (''name'', JStr (g_name grp))]),
                                             (''manager'', JObj [(''id'', JStr (u_id usr)), (''name'', JStr managerName)])])
                                      au
                          in (promises @ [SaveUser au', SaveTask tsk'], Inr tsk'))"

section \<open>Notions used to state the properties\<close>

text \<open>An entry is a pending approval for a task when the callback of the scans accepts it.\<close>

definition pendingApproval :: "uuid \<Rightarrow> jsval \<Rightarrow> bool" where
  "pendingApproval taskId notification = (findNotification taskId notification = Inr True)"

definition holdsPending :: "uuid \<Rightarrow> user \<Rightarrow> bool" where
  "holdsPending taskId manager = list_ex (pendingApproval taskId) (u_notifications manager)"

text \<open>A list without the first element that satisfies a predicate.\<close>

fun withoutFirst :: "('a \<Rightarrow> bool) \<Rightarrow> 'a list \<Rightarrow> 'a list" where
  "withoutFirst P [] = []"
| "withoutFirst P (x # xs) = (if P x then xs else x # withoutFirst P xs)"

definition clearPending :: "uuid \<Rightarrow> user \<Rightarrow> user" where
  "clearPending taskId manager =
     manager\<lparr>u_notifications := withoutFirst (pendingApproval taskId) (u_notifications manager)\<rparr>"

text \<open>The \<^verbatim>\<open>direction\<close> field of a notification.\<close>

definition directionOf :: "jsval \<Rightarrow> jsval" where
  "directionOf notification = (case get notification ''direction'' of Inl e \<Rightarrow> JUndefined | Inr d \<Rightarrow> d)"

text \<open>
  The direction lookup in the words of the specification: the direction of the first pending
  approval for the task found across all the users of the leader-plus-managers set,
  \<^verbatim>\<open>'up'\<close> when none of them holds one.
\<close>

definition specDirection :: "uuid \<Rightarrow> user list \<Rightarrow> jsval" where
  "specDirection taskId managers =
     (case find (pendingApproval taskId) (concat (map u_notifications managers)) of
        None \<Rightarrow> JStr ''up''
      | Some n \<Rightarrow> directionOf n)"

section \<open>A small group\<close>

text \<open>
  Group \<open>G\<close> with leader \<open>L\<close> and manager \<open>M\<close>; member \<open>A\<close> holds the linked copy \<open>T\<close> of
  the group task \<open>c\<close>. The translation function of the example returns the key, followed by
  the language when one is passed.
\<close>

definition mkUser :: "uuid \<Rightarrow> string \<Rightarrow> jsval list \<Rightarrow> user" where
  "mkUser i lang ns =
     \<lparr>u_id = i, u_profile = \<lparr>p_name = i\<rparr>, u_preferences = \<lparr>language = Some lang\<rparr>, u_notifications = ns\<rparr>"

definition pendingFor :: "uuid \<Rightarrow> string \<Rightarrow> jsval" where
  "pendingFor tid d =
     JObj [(''type'', JStr ''GROUP_TASK_APPROVAL''), (''data'', JObj [(''taskId'', JStr tid)]), (''direction'', JStr d)]"

definition exampleEnv :: env where
  "exampleEnv =
     \<lparr>notEmpty = (\<lambda>s. s \<noteq> []), isUUID = (\<lambda>s. s \<noteq> []), isNumeric = (\<lambda>s. s \<noteq> []), toNumber = (\<lambda>s. 0),
      t = (\<lambda>k vs l. case l of None \<Rightarrow> k | Some x \<Rightarrow> k @ ''/'' @ x), now = 7,
      moveTask = (\<lambda>order i to. i # remove1 i order), syncTask = (\<lambda>g d u. d)\<rparr>"

definition userL :: user where
  "userL = mkUser ''L'' ''en'' [JUndefined, pendingFor ''T'' ''down'', pendingFor ''T'' ''up'']"

definition userM :: user where
  "userM = mkUser ''M'' ''en'' [JNull, JObj [(''type'', JStr ''GROUP_TASK_APPROVAL'')]]"

definition userA :: user where
  "userA = mkUser ''A'' ''de'' []"

definition exampleGroup :: group where
  "exampleGroup =
     \<lparr>g_id = ''G'', g_leader = ''L'', g_managers = [(''M'', True)], g_name = ''grp'',
      g_tasksOrder = \<lparr>habits = [], dailys = [], todos = [''b'', ''c''], rewards = []\<rparr>\<rparr>"

definition linkedTask :: "bool \<Rightarrow> bool \<Rightarrow> task" where
  "linkedTask req appr =
     \<lparr>t_id = ''T'', t_type = Todo, t_text = ''txt'', t_completed = False, t_userId = Some ''A'',
      t_group = \<lparr>tg_id = Some ''G'', tg_taskId = Some ''c'',
                 tg_approval = \<lparr>requested = req, requestedDate = (if req then Some 3 else None),
                                approved = appr, dateApproved = None, approvingUser = None\<rparr>\<rparr>\<rparr>"

definition plainTask :: "uuid \<Rightarrow> uuid option \<Rightarrow> task" where
  "plainTask i gid =
     \<lparr>t_id = i, t_type = Todo, t_text = ''txt'', t_completed = False, t_userId = None,
      t_group = \<lparr>tg_id = gid, tg_taskId = None,
                 tg_approval = \<lparr>requested = False, requestedDate = None, approved = False,
                                dateApproved = None, approvingUser = None\<rparr>\<rparr>\<rparr>"

definition exampleStore :: "user list \<Rightarrow> task list \<Rightarrow> store" where
  "exampleStore us ds =
     \<lparr>users = us, tasks = ds,
      getGroup = (\<lambda>u gid. if gid = Some ''G'' then Some exampleGroup else None),
      findByIdOrAlias = (\<lambda>i u. find (\<lambda>d. t_id d = i) ds)\<rparr>"

text \<open>The leader \<open>L\<close> without the first pending approval for \<open>T\<close>.\<close>

definition clearedL :: user where
  "clearedL = userL\<lparr>u_notifications := [JUndefined, pendingFor ''T'' ''up'']\<rparr>"

text \<open>The task \<open>T\<close> as an approval at time 7 leaves it.\<close>

definition approvedTask :: "uuid \<Rightarrow> task" where
  "approvedTask approver =
     linkedTask True False\<lparr>t_group := (t_group (linkedTask True False))
       \<lparr>tg_approval := (tg_approval (t_group (linkedTask True False)))
          \<lparr>dateApproved := Some 7, approvingUser := Some approver, approved := True\<rparr>\<rparr>\<rparr>"

text \<open>The assignee \<open>A\<close> after an approval that forwards the direction \<open>d\<close>.\<close>

definition notifiedA :: "uuid \<Rightarrow> string \<Rightarrow> user" where
  "notifiedA approver d =
     userA\<lparr>u_notifications :=
       [JObj [(''type'', JStr ''GROUP_TASK_APPROVED''),
              (''data'', JObj [(''message'', JStr ''yourTaskHasBeenApproved''), (''groupId'', JStr ''G'')])],
        JObj [(''type'', JStr ''SCORED_TASK''),
              (''data'', JObj [(''message'', JStr ''yourTaskHasBeenApproved''),
                               (''scoreTask'', taskJS (approvedTask approver)),
                               (''direction'', JStr d)])]]\<rparr>"

text \<open>The same task assigned to manager \<open>M\<close>, and what the leader's approval makes of it and of \<open>M\<close>.\<close>

definition linkedTaskM :: task where
  "linkedTaskM = linkedTask True False\<lparr>t_userId := Some ''M''\<rparr>"

definition approvedTaskM :: task where
  "approvedTaskM =
     linkedTaskM\<lparr>t_group := (t_group linkedTaskM)
       \<lparr>tg_approval := (tg_approval (t_group linkedTaskM))
          \<lparr>dateApproved := Some 7, approvingUser := Some ''L'', approved := True\<rparr>\<rparr>\<rparr>"

definition notifiedM :: user where
  "notifiedM =
     userM\<lparr>u_notifications := u_notifications userM @
       [JObj [(''type'', JStr ''GROUP_TASK_APPROVED''),
              (''data'', JObj [(''message'', JStr ''yourTaskHasBeenApproved''), (''groupId'', JStr ''G'')])],
        JObj [(''type'', JStr ''SCORED_TASK''),
              (''data'', JObj [(''message'', JStr ''yourTaskHasBeenApproved''),
                               (''scoreTask'', taskJS approvedTaskM),
                               (''direction'', JStr ''up'')])]]\<rparr>"

section \<open>The scans never fail\<close>

lemma get_truthy: "truthy v \<Longrightarrow> \<exists>w. get v k = Inr w"
  by (cases v) simp_all

lemma findNotification_total: "findNotification taskId n = Inr (pendingApproval taskId n)"
  unfolding pendingApproval_def findNotification_def
  by (auto split: sum.splits dest: get_truthy [where k = "''data''"] get_truthy [where k = "''taskId''"] get_truthy [where k = "''type''"])

lemma pendingApproval_iff:
  "pendingApproval taskId n \<longleftrightarrow>
     (\<exists>kvs dkvs. n = JObj kvs \<and> map_of kvs ''data'' = Some (JObj dkvs) \<and>
        map_of dkvs ''taskId'' = Some (JStr taskId) \<and>
        map_of kvs ''type'' = Some (JStr ''GROUP_TASK_APPROVAL''))"
proof (cases n)
  case (JObj kvs)
  show ?thesis
  proof (cases "map_of kvs ''data''")
    case None
    with JObj show ?thesis by (simp add: pendingApproval_def findNotification_def)
  next
    case (Some d)
    with JObj show ?thesis
      by (cases d) (auto simp: pendingApproval_def findNotification_def split: option.splits)
  qed
qed (simp_all add: pendingApproval_def findNotification_def)

lemma pendingApproval_truthy: "pendingApproval taskId n \<Longrightarrow> truthy n"
  by (auto simp: pendingApproval_iff)

lemma findIndexFrom_none:
  "\<forall>x\<in>set xs. \<not> pendingApproval taskId x \<Longrightarrow> findIndexFrom (findNotification taskId) i xs = Inr (- 1)"
  by (induction xs arbitrary: i) (simp_all add: findNotification_total)

lemma findIndexFrom_first:
  "\<forall>x\<in>set xs. \<not> pendingApproval taskId x \<Longrightarrow> pendingApproval taskId n \<Longrightarrow>
   findIndexFrom (findNotification taskId) i (xs @ n # ys) = Inr (i + int (length xs))"
  by (induction xs arbitrary: i) (simp_all add: findNotification_total)

lemma splice1_middle: "splice1 (int (length xs)) (xs @ n # ys) = xs @ ys"
  by (simp add: splice1_def Let_def min_def)

lemma withoutFirst_none: "\<forall>x\<in>set xs. \<not> P x \<Longrightarrow> withoutFirst P xs = xs"
  by (induction xs) simp_all

lemma withoutFirst_first: "\<forall>x\<in>set xs. \<not> P x \<Longrightarrow> P n \<Longrightarrow> withoutFirst P (xs @ n # ys) = xs @ ys"
  by (induction xs) simp_all

lemma find_none: "\<forall>x\<in>set xs. \<not> P x \<Longrightarrow> find P xs = None"
  by (induction xs) simp_all

lemma find_first: "\<forall>x\<in>set xs. \<not> P x \<Longrightarrow> P n \<Longrightarrow> find P (xs @ n # ys) = Some n"
  by (induction xs) simp_all

lemma at_middle: "at (xs @ n # ys) (int (length xs)) = n"
  by (simp add: at_def)

lemma at_minus1: "at xs (- 1) = JUndefined"
  by (simp add: at_def)

lemma scan_cases:
  obtains (none) "\<forall>x\<in>set ns. \<not> pendingApproval taskId x"
  | (first) xs n ys where "ns = xs @ n # ys" "\<forall>x\<in>set xs. \<not> pendingApproval taskId x" "pendingApproval taskId n"
proof (cases "\<exists>x\<in>set ns. pendingApproval taskId x")
  case True
  then obtain xs n ys where "ns = xs @ n # ys" "pendingApproval taskId n" "\<forall>x\<in>set xs. \<not> pendingApproval taskId x"
    by (auto dest!: split_list_first_prop)
  then show ?thesis using first by blast
next
  case False
  then show ?thesis using none by blast
qed

lemma getTaskDirection_eq:
  "getTaskDirection taskId ns =
     Inr (case find (pendingApproval taskId) ns of None \<Rightarrow> JStr ''up'' | Some n \<Rightarrow> directionOf n)"
proof (cases ns taskId rule: scan_cases)
  case none
  then show ?thesis
    by (simp add: getTaskDirection_def findIndex_def findIndexFrom_none find_none at_minus1)
next
  case (first xs n ys)
  moreover from first have "truthy n" by (simp add: pendingApproval_truthy)
  moreover from first obtain kvs where "n = JObj kvs" by (auto simp: pendingApproval_iff)
  ultimately show ?thesis
    by (simp add: getTaskDirection_def findIndex_def findIndexFrom_first find_first at_middle directionOf_def)
qed

lemma removeOld_step:
  "(if holdsPending taskId m
    then findIndex (findNotification taskId) (u_notifications m) \<noteq> Inr (- 1)
    else findIndex (findNotification taskId) (u_notifications m) = Inr (- 1)) \<and>
   (\<exists>i. findIndex (findNotification taskId) (u_notifications m) = Inr i \<and>
        (i \<noteq> - 1 \<longrightarrow> m\<lparr>u_notifications := splice1 i (u_notifications m)\<rparr> = clearPending taskId m))"
proof (cases "u_notifications m" taskId rule: scan_cases)
  case none
  then show ?thesis
    by (simp add: findIndex_def findIndexFrom_none holdsPending_def list_ex_iff)
next
  case (first xs n ys)
  then show ?thesis
    by (auto simp: findIndex_def findIndexFrom_first holdsPending_def list_ex_iff splice1_middle
                   clearPending_def withoutFirst_first)
qed

lemma clearPending_id: "\<not> holdsPending taskId m \<Longrightarrow> clearPending taskId m = m"
  by (simp add: clearPending_def holdsPending_def list_ex_iff withoutFirst_none)

lemma removeOldNotifications_eq:
  "removeOldNotifications taskId ms =
     (map (clearPending taskId) ms,
      map (\<lambda>m. SaveUser (clearPending taskId m)) (filter (holdsPending taskId) ms),
      None)"
proof (induction ms)
  case Nil
  show ?case by simp
next
  case (Cons m ms)
  from removeOld_step [of taskId m] obtain i where
    i: "findIndex (findNotification taskId) (u_notifications m) = Inr i"
       "i \<noteq> - 1 \<longrightarrow> m\<lparr>u_notifications := splice1 i (u_notifications m)\<rparr> = clearPending taskId m"
       "holdsPending taskId m \<longleftrightarrow> i \<noteq> - 1"
    by (auto split: if_splits)
  show ?case
    using i Cons.IH by (auto simp: clearPending_id Let_def)
qed

lemma approveTask_success:
  assumes "notEmpty e taskId" "isUUID e taskId" "notEmpty e userId" "isUUID e userId"
    and "Task_findOne st taskId userId = Some tsk"
    and "getGroup st usr (tg_id (t_group tsk)) = Some grp"
    and "\<not> canNotEditTasks grp usr JUndefined"
    and "\<not> approved (tg_approval (t_group tsk))"
    and "User_find st (map fst (g_managers grp) @ [g_leader grp]) = firstManager # rest"
    and "User_findById st userId = Some au"
  shows "approveTask e st usr taskId userId =
     (map (\<lambda>m. SaveUser (clearPending (t_id tsk) m))
        (filter (holdsPending (t_id tsk)) (User_find st (map fst (g_managers grp) @ [g_leader grp]))) @
      [SaveTask (tsk\<lparr>t_group := (t_group tsk)\<lparr>tg_approval := (tg_approval (t_group tsk))
                  \<lparr>dateApproved := Some (now e), approvingUser := Some (u_id usr), approved := True\<rparr>\<rparr>\<rparr>),
       SaveUser (au\<lparr>u_notifications := u_notifications au @
          [JObj [(''type'', JStr ''GROUP_TASK_APPROVED''),
                 (''data'', JObj [(''message'', JStr (t e ''yourTaskHasBeenApproved'' [(''taskText'', t_text tsk)] None)),
                                  (''groupId'', JStr (g_id grp))])],
           JObj [(''type'', JStr ''SCORED_TASK''),
                 (''data'', JObj [(''message'', JStr (t e ''yourTaskHasBeenApproved'' [(''taskText'', t_text tsk)] None)),
                                  (''scoreTask'', taskJS (tsk\<lparr>t_group := (t_group tsk)\<lparr>tg_approval := (tg_approval (t_group tsk))
                  \<lparr>dateApproved := Some (now e), approvingUser := Some (u_id usr), approved := True\<rparr>\<rparr>\<rparr>)),
                                  (''direction'', case find (pendingApproval (t_id tsk)) (u_notifications firstManager) of
                                                    None \<Rightarrow> JStr ''up'' | Some n \<Rightarrow> directionOf n)])]]\<rparr>)],
      Inr (tsk\<lparr>t_group := (t_group tsk)\<lparr>tg_approval := (tg_approval (t_group tsk))
                  \<lparr>dateApproved := Some (now e), approvingUser := Some (u_id usr), approved := True\<rparr>\<rparr>\<rparr>))"
  using assms
  by (simp add: approveTask_def checkParams_def Let_def getTaskDirection_eq
                removeOldNotifications_eq addNotification_def del: filter.simps list.map)

lemma approveTask_InrD:
  assumes "approveTask e st usr taskId userId = (effs, Inr r)"
  shows "\<exists>tsk grp firstManager rest au.
           notEmpty e taskId \<and> isUUID e taskId \<and> notEmpty e userId \<and> isUUID e userId \<and>
           Task_findOne st taskId userId = Some tsk \<and>
           getGroup st usr (tg_id (t_group tsk)) = Some grp \<and>
           \<not> canNotEditTasks grp usr JUndefined \<and>
           \<not> approved (tg_approval (t_group tsk)) \<and>
           User_find st (map fst (g_managers grp) @ [g_leader grp]) = firstManager # rest \<and>
           User_findById st userId = Some au"
  using assms
  by (auto simp: approveTask_def checkParams_def Let_def getTaskDirection_eq removeOldNotifications_eq
           split: if_splits option.splits list.splits)

lemma taskNeedsWork_success:
  assumes "notEmpty e taskId" "isUUID e taskId" "notEmpty e userId" "isUUID e userId"
    and "Task_findOne st taskId userId = Some tsk"
    and "getGroup st usr (tg_id (t_group tsk)) = Some grp"
    and "\<not> canNotEditTasks grp usr JUndefined"
    and "\<not> approved (tg_approval (t_group tsk))"
    and "requested (tg_approval (t_group tsk))"
    and "User_findById st userId = Some au"
  shows "taskNeedsWork e st usr taskId userId =
     (map (\<lambda>m. SaveUser (clearPending (t_id tsk) m))
        (filter (holdsPending (t_id tsk)) (User_find st (map fst (g_managers grp) @ [g_leader grp]))) @
      [SaveUser (au\<lparr>u_notifications := u_notifications au @
          [JObj [(''type'', JStr ''GROUP_TASK_NEEDS_WORK''),
                 (''data'', JObj [(''message'', JStr (t e ''taskNeedsWork''
                                       [(''taskText'', t_text tsk), (''managerName'', p_name (u_profile usr))]
                                       (language (u_preferences au)))),
                                  (''task'', JObj [(''id'', JStr (t_id tsk)), (''text'', JStr (t_text tsk))]),
                                  (''group'', JObj [(''id'', JStr (g_id grp)), (''name'', JStr (g_name grp))]),
                                  (''manager'', JObj [(''id'', JStr (u_id usr)), (''name'', JStr (p_name (u_profile usr)))])])]]\<rparr>),
       SaveTask (tsk\<lparr>t_group := (t_group tsk)\<lparr>tg_approval := (tg_approval (t_group tsk))
                  \<lparr>requested := False, requestedDate := None\<rparr>\<rparr>\<rparr>)],
      Inr (tsk\<lparr>t_group := (t_group tsk)\<lparr>tg_approval := (tg_approval (t_group tsk))
                  \<lparr>requested := False, requestedDate := None\<rparr>\<rparr>\<rparr>))"
  using assms
  by (simp add: taskNeedsWork_def checkParams_def Let_def removeOldNotifications_eq addNotification_def)

lemma taskNeedsWork_InrD:
  assumes "taskNeedsWork e st usr taskId userId = (effs, Inr r)"
  shows "\<exists>tsk grp au.
           notEmpty e taskId \<and> isUUID e taskId \<and> notEmpty e userId \<and> isUUID e userId \<and>
           Task_findOne st taskId userId = Some tsk \<and>
           getGroup st usr (tg_id (t_group tsk)) = Some grp \<and>
           \<not> canNotEditTasks grp usr JUndefined \<and>
           \<not> approved (tg_approval (t_group tsk)) \<and>
           requested (tg_approval (t_group tsk)) \<and>
           User_findById st userId = Some au"
  using assms
  by (auto simp: taskNeedsWork_def checkParams_def Let_def removeOldNotifications_eq
           split: if_splits option.splits)

lemma clearPending_holds:
  assumes "holdsPending taskId m"
  shows "\<exists>xs n ys. u_notifications m = xs @ n # ys \<and> (\<forall>x\<in>set xs. \<not> pendingApproval taskId x) \<and>
           pendingApproval taskId n \<and> clearPending taskId m = m\<lparr>u_notifications := xs @ ys\<rparr>"
proof (cases "u_notifications m" taskId rule: scan_cases)
  case none
  with assms show ?thesis by (simp add: holdsPending_def list_ex_iff)
next
  case (first xs n ys)
  then show ?thesis
    by (auto simp: clearPending_def withoutFirst_first)
qed

lemma find_Task_save:
  assumes "find Q ds = Some d" "Q d'" "t_id d' = t_id d"
  shows "find Q (Task_save d' ds) = Some d'"
  using assms
proof (induction ds)
  case Nil
  then show ?case by simp
next
  case (Cons x xs)
  then show ?case by (auto simp: Task_save_def split: if_splits)
qed

lemma canEdit_leader_or_manager:
  "g_leader grp = u_id usr \<or> map_of (g_managers grp) (u_id usr) = Some True \<Longrightarrow>
   \<not> canNotEditTasks grp usr JUndefined"
  by (auto simp: canNotEditTasks_def)

section \<open>The example, computed\<close>

lemma exampleEnv_simps [simp]:
  "notEmpty exampleEnv s = (s \<noteq> [])"
  "isUUID exampleEnv s = (s \<noteq> [])"
  "isNumeric exampleEnv s = (s \<noteq> [])"
  "toNumber exampleEnv s = 0"
  "t exampleEnv k vs None = k"
  "t exampleEnv k vs (Some l) = k @ ''/'' @ l"
  "now exampleEnv = 7"
  "moveTask exampleEnv order i to = i # remove1 i order"
  by (simp_all add: exampleEnv_def)

lemma exampleStore_simps [simp]:
  "users (exampleStore us ds) = us"
  "tasks (exampleStore us ds) = ds"
  "getGroup (exampleStore us ds) u gid = (if gid = Some ''G'' then Some exampleGroup else None)"
  "findByIdOrAlias (exampleStore us ds) i v = find (\<lambda>d. t_id d = i) ds"
  by (simp_all add: exampleStore_def)

lemmas example_defs = mkUser_def pendingFor_def userL_def userM_def userA_def
  exampleGroup_def linkedTask_def plainTask_def clearedL_def approvedTask_def notifiedA_def

lemma example_lookups:
  "Task_findOne (exampleStore us [linkedTask r a]) ''c'' ''A'' = Some (linkedTask r a)"
  "getGroup (exampleStore us ds) u (tg_id (t_group (linkedTask r a))) = Some exampleGroup"
  "User_findById (exampleStore [userM, userL, userA] ds) ''A'' = Some userA"
  "User_findById (exampleStore [userL, userM, userA] ds) ''A'' = Some userA"
  "User_findById (exampleStore [userM, userL] ds) ''A'' = None"
  "User_find (exampleStore [userM, userL, userA] ds) (map fst (g_managers exampleGroup) @ [g_leader exampleGroup]) =
     [userM, userL]"
  "User_find (exampleStore [userL, userM, userA] ds) (map fst (g_managers exampleGroup) @ [g_leader exampleGroup]) =
     [userL, userM]"
  "User_find (exampleStore [userM, userL] ds) (map fst (g_managers exampleGroup) @ [g_leader exampleGroup]) =
     [userM, userL]"
  by (simp_all add: Task_findOne_def User_findById_def User_find_def example_defs)

lemma example_canEdit:
  "\<not> canNotEditTasks exampleGroup userL JUndefined"
  "\<not> canNotEditTasks exampleGroup userM JUndefined"
  "canNotEditTasks exampleGroup userA JUndefined"
  "\<not> canNotEditTasks exampleGroup userA (JStr ''A'')"
  by (simp_all add: canNotEditTasks_def example_defs)

lemma example_pending:
  "pendingApproval ''T'' (pendingFor ''T'' d)"
  "\<not> pendingApproval ''T'' JNull"
  "\<not> pendingApproval ''T'' JUndefined"
  "\<not> pendingApproval ''T'' (JObj [(''type'', JStr ''GROUP_TASK_APPROVAL'')])"
  by (simp_all add: pendingApproval_iff pendingFor_def)

lemma example_holds:
  "holdsPending ''T'' userL"
  "\<not> holdsPending ''T'' userM"
  "clearPending ''T'' userL = clearedL"
  "clearPending ''T'' userM = userM"
  "directionOf (pendingFor ''T'' d) = JStr d"
  "t_id (linkedTask r a) = ''T''"
  "find (pendingApproval ''T'') (u_notifications userM) = None"
  "find (pendingApproval ''T'') (u_notifications userL) = Some (pendingFor ''T'' ''down'')"
  by (simp_all add: holdsPending_def clearPending_def clearedL_def userL_def userM_def mkUser_def
        example_pending directionOf_def linkedTask_def)
     (simp add: pendingFor_def)

lemma example_approve_by_leader:
  "approveTask exampleEnv (exampleStore [userM, userL, userA] [linkedTask True False]) userL ''c'' ''A'' =
     ([SaveUser (clearedL), SaveTask (approvedTask ''L''), SaveUser (notifiedA ''L'' ''up'')],
      Inr (approvedTask ''L''))"
proof -
  have pre: "notEmpty exampleEnv ''c''" "isUUID exampleEnv ''c''" "notEmpty exampleEnv ''A''" "isUUID exampleEnv ''A''"
    "\<not> approved (tg_approval (t_group (linkedTask True False)))"
    by (simp_all add: linkedTask_def)
  show ?thesis
    unfolding approveTask_success [OF pre(1-4) example_lookups(1,2) example_canEdit(1) pre(5)
        example_lookups(6) example_lookups(3)] example_lookups(6)
    by (simp add: example_holds)
       (simp add: approvedTask_def notifiedA_def userL_def userA_def mkUser_def linkedTask_def exampleGroup_def)
qed

lemma example_approve_by_manager:
  "approveTask exampleEnv (exampleStore [userL, userM, userA] [linkedTask True False]) userM ''c'' ''A'' =
     ([SaveUser (clearedL), SaveTask (approvedTask ''M''), SaveUser (notifiedA ''M'' ''down'')],
      Inr (approvedTask ''M''))"
proof -
  have pre: "notEmpty exampleEnv ''c''" "isUUID exampleEnv ''c''" "notEmpty exampleEnv ''A''" "isUUID exampleEnv ''A''"
    "\<not> approved (tg_approval (t_group (linkedTask True False)))"
    by (simp_all add: linkedTask_def)
  show ?thesis
    unfolding approveTask_success [OF pre(1-4) example_lookups(1,2) example_canEdit(2) pre(5)
        example_lookups(7) example_lookups(4)] example_lookups(7)
    by (simp add: example_holds)
       (simp add: approvedTask_def notifiedA_def userM_def userA_def mkUser_def linkedTask_def exampleGroup_def)
qed

section \<open>The store after the writes\<close>

lemma users_fold_saves:
  "users (fold applyEffect (map SaveUser ds) st) = fold User_save ds (users st)"
  by (induction ds arbitrary: st) simp_all

lemma tasks_fold_saves:
  "tasks (fold applyEffect (map SaveUser ds) st) = tasks st"
  by (induction ds arbitrary: st) simp_all

lemma users_commit:
  "users (commit (map SaveUser ds @ [SaveTask d, SaveUser a]) st) = User_save a (fold User_save ds (users st))"
  by (simp add: commit_def users_fold_saves)

lemma find_app:
  "find Q (xs @ ys) = (case find Q xs of None \<Rightarrow> find Q ys | Some x \<Rightarrow> Some x)"
  by (induction xs) simp_all

lemma find_SomeD: "find Q xs = Some d \<Longrightarrow> d \<in> set xs \<and> Q d"
  by (induction xs) (auto split: if_splits)

lemma u_id_lastSave:
  "u_id (case find (\<lambda>d. u_id d = u_id x) ds of None \<Rightarrow> x | Some d \<Rightarrow> d) = u_id x"
  by (auto split: option.splits dest: find_SomeD)

lemma fold_User_save:
  "fold User_save ds us =
     map (\<lambda>x. case find (\<lambda>d. u_id d = u_id x) (rev ds) of None \<Rightarrow> x | Some d \<Rightarrow> d) us"
proof (induction ds arbitrary: us)
  case Nil
  show ?case by simp
next
  case (Cons d ds)
  have "fold User_save (d # ds) us = fold User_save ds (User_save d us)" by simp
  also have "\<dots> = map (\<lambda>x. case find (\<lambda>d. u_id d = u_id x) (rev ds) of None \<Rightarrow> x | Some d \<Rightarrow> d)
                      (User_save d us)"
    by (rule Cons.IH)
  also have "\<dots> = map (\<lambda>x. case find (\<lambda>d. u_id d = u_id x) (rev (d # ds)) of None \<Rightarrow> x | Some d \<Rightarrow> d) us"
    by (auto simp: User_save_def find_app split: option.splits)
  finally show ?case .
qed

lemma find_saved:
  assumes "distinct (map u_id us)" "x \<in> set us" "\<And>u. u_id (c u) = u_id u"
  shows "find (\<lambda>d. u_id d = u_id x) (rev (map c (filter P us))) = (if P x then Some (c x) else None)"
proof (cases "find (\<lambda>d. u_id d = u_id x) (rev (map c (filter P us)))")
  case None
  then have "\<not> P x"
    using assms(2,3) by (auto simp: find_None_iff)
  with None show ?thesis by simp
next
  case (Some d)
  from find_SomeD [OF Some] obtain m where m: "m \<in> set us" "P m" "d = c m" "u_id d = u_id x"
    by auto
  with assms(3) have "u_id m = u_id x" by simp
  with assms(1,2) m(1) have "m = x"
    by (meson distinct_map inj_on_def)
  with m Some show ?thesis by simp
qed

lemma u_id_clearPending: "u_id (clearPending taskId u) = u_id u"
  by (simp add: clearPending_def)

lemma User_findById_id: "User_findById st uid = Some au \<Longrightarrow> u_id au = uid"
  by (auto simp: User_findById_def dest: find_SomeD)

lemma example_ids:
  "u_id userM = ''M''" "u_id userL = ''L''" "u_id userA = ''A''"
  "u_id clearedL = ''L''" "u_id (notifiedA ap d) = ''A''" "u_id notifiedM = ''M''"
  by (simp_all add: userM_def userL_def userA_def clearedL_def notifiedA_def notifiedM_def mkUser_def)

lemma example_approve_of_manager:
  "approveTask exampleEnv (exampleStore [userM, userL, userA] [linkedTaskM]) userL ''c'' ''M'' =
     ([SaveUser clearedL, SaveTask approvedTaskM, SaveUser notifiedM], Inr approvedTaskM)"
proof -
  let ?st = "exampleStore [userM, userL, userA] [linkedTaskM]"
  have pre: "notEmpty exampleEnv ''c''" "isUUID exampleEnv ''c''" "notEmpty exampleEnv ''M''" "isUUID exampleEnv ''M''"
    "Task_findOne ?st ''c'' ''M'' = Some linkedTaskM"
    "getGroup ?st userL (tg_id (t_group linkedTaskM)) = Some exampleGroup"
    "\<not> approved (tg_approval (t_group linkedTaskM))"
    "User_findById ?st ''M'' = Some userM"
    by (simp_all add: Task_findOne_def User_findById_def linkedTaskM_def linkedTask_def example_ids)
  have tid: "t_id linkedTaskM = ''T''"
    by (simp add: linkedTaskM_def linkedTask_def)
  show ?thesis
    unfolding approveTask_success [OF pre(1-6) example_canEdit(1) pre(7) example_lookups(6) pre(8)]
      example_lookups(6) tid
    by (simp add: example_holds)
       (simp add: approvedTaskM_def notifiedM_def linkedTaskM_def linkedTask_def userL_def mkUser_def
          exampleGroup_def)
qed

section \<open>The claims\<close>

text \<open>
  C1. Approving twice. When the parameters validate, the linked task and its group resolve,
  the acting user is the group's leader or one of its managers, the task is not yet approved,
  and the assigned user and at least one user of the leader-plus-managers set exist, the first
  \<open>approveTask\<close> succeeds and saves the task with \<open>approved\<close> set, \<open>dateApproved\<close> the current
  time and \<open>approvingUser\<close> the acting user. In the store that holds the saved task (whatever
  the user documents are by then, and whatever the time), the lookup finds the approved task
  and a second \<open>approveTask\<close> throws the once-only error having issued no write at all, so
  the three fields stay as the first call left them.
\<close>

theorem approveTask_twice:
  assumes "notEmpty e taskId" "isUUID e taskId" "notEmpty e userId" "isUUID e userId"
    and "Task_findOne st taskId userId = Some tsk"
    and "\<not> approved (tg_approval (t_group tsk))"
    and "getGroup st usr (tg_id (t_group tsk)) = Some grp"
    and "g_leader grp = u_id usr \<or> map_of (g_managers grp) (u_id usr) = Some True"
    and "User_find st (map fst (g_managers grp) @ [g_leader grp]) \<noteq> []"
    and "User_findById st userId = Some au"
  shows "\<exists>effs tsk'.
           approveTask e st usr taskId userId = (effs, Inr tsk') \<and>
           SaveTask tsk' \<in> set effs \<and>
           approved (tg_approval (t_group tsk')) \<and>
           dateApproved (tg_approval (t_group tsk')) = Some (now e) \<and>
           approvingUser (tg_approval (t_group tsk')) = Some (u_id usr) \<and>
           (\<forall>us now'.
              Task_findOne (st\<lparr>tasks := Task_save tsk' (tasks st), users := us\<rparr>) taskId userId = Some tsk' \<and>
              approveTask (e\<lparr>now := now'\<rparr>) (st\<lparr>tasks := Task_save tsk' (tasks st), users := us\<rparr>)
                  usr taskId userId =
                ([], Inl (NotAuthorized (t e ''canOnlyApproveTaskOnce'' [] None))))"
proof -
  let ?tsk' = "tsk\<lparr>t_group := (t_group tsk)\<lparr>tg_approval := (tg_approval (t_group tsk))
                  \<lparr>dateApproved := Some (now e), approvingUser := Some (u_id usr), approved := True\<rparr>\<rparr>\<rparr>"
  from assms(9) obtain firstManager rest where
    ms: "User_find st (map fst (g_managers grp) @ [g_leader grp]) = firstManager # rest"
    by (cases "User_find st (map fst (g_managers grp) @ [g_leader grp])") auto
  have can: "\<not> canNotEditTasks grp usr JUndefined"
    using assms(8) by (rule canEdit_leader_or_manager)
  have first: "snd (approveTask e st usr taskId userId) = Inr ?tsk'"
    "SaveTask ?tsk' \<in> set (fst (approveTask e st usr taskId userId))"
    by (simp_all add: approveTask_success [OF assms(1-5) assms(7) can assms(6) ms assms(10)])
  have found: "Task_findOne (st\<lparr>tasks := Task_save ?tsk' (tasks st), users := us\<rparr>) taskId userId = Some ?tsk'" for us
    using assms(5) unfolding Task_findOne_def
    by (auto intro!: find_Task_save dest: find_Some_iff [THEN iffD1])
  have second: "approveTask (e\<lparr>now := now'\<rparr>) (st\<lparr>tasks := Task_save ?tsk' (tasks st), users := us\<rparr>)
                  usr taskId userId =
                ([], Inl (NotAuthorized (t e ''canOnlyApproveTaskOnce'' [] None)))" for us now'
    using assms(1-4) assms(7) can found [of us]
    by (simp add: approveTask_def checkParams_def Let_def)
  show ?thesis
    using first found second
    by (intro exI [of _ "fst (approveTask e st usr taskId userId)"] exI [of _ ?tsk'])
       (simp add: prod_eq_iff)
qed

theorem approveTask_twice_witness:
  "approveTask exampleEnv (exampleStore [userM, userL, userA] [linkedTask True False]) userL ''c'' ''A'' =
     ([SaveUser (clearedL), SaveTask (approvedTask ''L''), SaveUser (notifiedA ''L'' ''up'')],
      Inr (approvedTask ''L'')) \<and>
   approved (tg_approval (t_group (approvedTask ''L''))) \<and>
   dateApproved (tg_approval (t_group (approvedTask ''L''))) = Some 7 \<and>
   approvingUser (tg_approval (t_group (approvedTask ''L''))) = Some ''L'' \<and>
   approveTask (exampleEnv\<lparr>now := 8\<rparr>)
     (exampleStore [userM, userL, userA] [linkedTask True False]
        \<lparr>tasks := Task_save (approvedTask ''L'') (tasks (exampleStore [userM, userL, userA] [linkedTask True False])),
         users := [userM, clearedL, notifiedA ''L'' ''up'']\<rparr>)
     userL ''c'' ''A'' =
     ([], Inl (NotAuthorized ''canOnlyApproveTaskOnce''))"
proof -
  let ?st = "exampleStore [userM, userL, userA] [linkedTask True False]"
  have pre: "notEmpty exampleEnv ''c''" "isUUID exampleEnv ''c''" "notEmpty exampleEnv ''A''" "isUUID exampleEnv ''A''"
    "\<not> approved (tg_approval (t_group (linkedTask True False)))"
    "g_leader exampleGroup = u_id userL \<or> map_of (g_managers exampleGroup) (u_id userL) = Some True"
    "User_find ?st (map fst (g_managers exampleGroup) @ [g_leader exampleGroup]) \<noteq> []"
    by (simp_all add: example_lookups) (simp_all add: example_defs)
  from approveTask_twice [OF pre(1-4) example_lookups(1) pre(5) example_lookups(2) pre(6,7) example_lookups(3)]
  obtain effs tsk' where
    w: "approveTask exampleEnv ?st userL ''c'' ''A'' = (effs, Inr tsk')"
       "approved (tg_approval (t_group tsk'))"
       "dateApproved (tg_approval (t_group tsk')) = Some (now exampleEnv)"
       "approvingUser (tg_approval (t_group tsk')) = Some (u_id userL)"
       "\<And>us now'. approveTask (exampleEnv\<lparr>now := now'\<rparr>) (?st\<lparr>tasks := Task_save tsk' (tasks ?st), users := us\<rparr>)
                      userL ''c'' ''A'' =
                    ([], Inl (NotAuthorized (t exampleEnv ''canOnlyApproveTaskOnce'' [] None)))"
    by blast
  from w(1) have tsk': "tsk' = approvedTask ''L''"
    by (simp add: example_approve_by_leader)
  have ids: "u_id userL = ''L''"
    by (simp add: userL_def mkUser_def)
  show ?thesis
    using w(2-4) w(5) [of 8 "[userM, clearedL, notifiedA ''L'' ''up'']"]
    unfolding tsk' by (simp add: example_approve_by_leader ids)
qed

text \<open>
  C2, as amended. A \<open>taskNeedsWork\<close> call on a linked task whose approval state has
  \<open>requested\<close> false, with valid parameters, a task and a group that resolve and an acting
  user who may edit, throws a \<open>NotAuthorized\<close> error and writes nothing. Which error depends
  on \<open>approved\<close>, because that flag is tested first: the once-only error when \<open>approved\<close>
  is true, the approval-was-not-requested error otherwise.
\<close>

theorem taskNeedsWork_not_requested:
  assumes "notEmpty e taskId" "isUUID e taskId" "notEmpty e userId" "isUUID e userId"
    and "Task_findOne st taskId userId = Some tsk"
    and "getGroup st usr (tg_id (t_group tsk)) = Some grp"
    and "\<not> canNotEditTasks grp usr JUndefined"
    and "\<not> requested (tg_approval (t_group tsk))"
  shows "taskNeedsWork e st usr taskId userId =
           ([], Inl (NotAuthorized (t e (if approved (tg_approval (t_group tsk))
                                         then ''canOnlyApproveTaskOnce''
                                         else ''taskApprovalWasNotRequested'') [] None)))"
  using assms by (simp add: taskNeedsWork_def checkParams_def Let_def)

theorem taskNeedsWork_not_requested_witness:
  "\<not> requested (tg_approval (t_group (linkedTask False False))) \<and>
   taskNeedsWork exampleEnv (exampleStore [userM, userL, userA] [linkedTask False False]) userM ''c'' ''A'' =
     ([], Inl (NotAuthorized ''taskApprovalWasNotRequested''))"
proof -
  have pre: "notEmpty exampleEnv ''c''" "isUUID exampleEnv ''c''" "notEmpty exampleEnv ''A''" "isUUID exampleEnv ''A''"
    "\<not> requested (tg_approval (t_group (linkedTask False False)))"
    by (simp_all add: linkedTask_def)
  show ?thesis
    using taskNeedsWork_not_requested [OF pre(1-4) example_lookups(1,2) example_canEdit(2) pre(5)] pre(5)
    by (simp add: linkedTask_def)
qed

text \<open>
  The claim as it was stated fails when the task is already approved: the leader's call on a
  task with \<open>requested\<close> false and \<open>approved\<close> true gets the once-only error, which is not
  the approval-was-not-requested error.
\<close>

theorem taskNeedsWork_not_requested_counterexample:
  "requested (tg_approval (t_group (linkedTask False True))) = False \<and>
   approved (tg_approval (t_group (linkedTask False True))) = True \<and>
   taskNeedsWork exampleEnv (exampleStore [userM, userL, userA] [linkedTask False True]) userL ''c'' ''A'' =
     ([], Inl (NotAuthorized (t exampleEnv ''canOnlyApproveTaskOnce'' [] None))) \<and>
   t exampleEnv ''canOnlyApproveTaskOnce'' [] None \<noteq> t exampleEnv ''taskApprovalWasNotRequested'' [] None"
  by (simp add: taskNeedsWork_def checkParams_def example_lookups example_canEdit)
     (simp add: linkedTask_def)

text \<open>
  C3, as amended. After a successful \<open>approveTask\<close> the last write saves the assignee with two
  notifications appended, and the direction in the \<open>SCORED_TASK\<close> one is read from the first
  user that the lookup of the leader-plus-managers set returns, and from that user only: it is
  the \<open>direction\<close> field of that user's first pending approval for the task, and \<open>'up'\<close> when
  that user holds none.
\<close>

theorem approveTask_direction:
  assumes "approveTask e st usr taskId userId = (effs, Inr tsk')"
  shows "\<exists>tsk grp firstManager rest au.
           Task_findOne st taskId userId = Some tsk \<and>
           getGroup st usr (tg_id (t_group tsk)) = Some grp \<and>
           User_find st (map fst (g_managers grp) @ [g_leader grp]) = firstManager # rest \<and>
           User_findById st userId = Some au \<and>
           last effs = SaveUser (au\<lparr>u_notifications := u_notifications au @
             [JObj [(''type'', JStr ''GROUP_TASK_APPROVED''),
                    (''data'', JObj [(''message'', JStr (t e ''yourTaskHasBeenApproved'' [(''taskText'', t_text tsk)] None)),
                                     (''groupId'', JStr (g_id grp))])],
              JObj [(''type'', JStr ''SCORED_TASK''),
                    (''data'', JObj [(''message'', JStr (t e ''yourTaskHasBeenApproved'' [(''taskText'', t_text tsk)] None)),
                                     (''scoreTask'', taskJS tsk'),
                                     (''direction'',
                                        case find (pendingApproval (t_id tsk)) (u_notifications firstManager) of
                                          None \<Rightarrow> JStr ''up''
                                        | Some n \<Rightarrow> directionOf n)])]]\<rparr>)"
proof -
  from approveTask_InrD [OF assms] obtain tsk grp firstManager rest au where
    pre: "notEmpty e taskId" "isUUID e taskId" "notEmpty e userId" "isUUID e userId"
      "Task_findOne st taskId userId = Some tsk"
      "getGroup st usr (tg_id (t_group tsk)) = Some grp"
      "\<not> canNotEditTasks grp usr JUndefined"
      "\<not> approved (tg_approval (t_group tsk))"
      "User_find st (map fst (g_managers grp) @ [g_leader grp]) = firstManager # rest"
      "User_findById st userId = Some au"
    by blast
  from assms have "last effs = last (fst (approveTask e st usr taskId userId))"
    and "tsk' = projr (snd (approveTask e st usr taskId userId))"
    by simp_all
  then show ?thesis
    using pre(5,6,9,10) unfolding approveTask_success [OF pre] by simp
qed

theorem approveTask_direction_witness:
  "approveTask exampleEnv (exampleStore [userL, userM, userA] [linkedTask True False]) userM ''c'' ''A'' =
     ([SaveUser (clearedL), SaveTask (approvedTask ''M''), SaveUser (notifiedA ''M'' ''down'')],
      Inr (approvedTask ''M'')) \<and>
   User_find (exampleStore [userL, userM, userA] [linkedTask True False])
     (map fst (g_managers exampleGroup) @ [g_leader exampleGroup]) = userL # [userM] \<and>
   find (pendingApproval ''T'') (u_notifications userL) = Some (pendingFor ''T'' ''down'') \<and>
   directionOf (pendingFor ''T'' ''down'') = JStr ''down''"
  using approveTask_direction [OF example_approve_by_manager]
  by (simp add: example_approve_by_manager example_holds example_lookups)

text \<open>
  The claim as it was stated fails when the first user returned holds no pending approval
  and a later one does: the store returns manager \<open>M\<close> before leader \<open>L\<close>, only \<open>L\<close> holds
  the pending approval, with direction \<open>'down'\<close>, and the approval forwards \<open>'up'\<close>.
\<close>

theorem approveTask_direction_counterexample:
  "approveTask exampleEnv (exampleStore [userM, userL, userA] [linkedTask True False]) userL ''c'' ''A'' =
     ([SaveUser (clearedL), SaveTask (approvedTask ''L''), SaveUser (notifiedA ''L'' ''up'')],
      Inr (approvedTask ''L'')) \<and>
   User_find (exampleStore [userM, userL, userA] [linkedTask True False])
     (map fst (g_managers exampleGroup) @ [g_leader exampleGroup]) = [userM, userL] \<and>
   specDirection ''T'' [userM, userL] = JStr ''down''"
proof -
  have "specDirection ''T'' [userM, userL] = JStr ''down''"
    by (simp add: specDirection_def userM_def userL_def mkUser_def example_pending example_holds)
  then show ?thesis
    by (simp add: example_approve_by_leader example_lookups)
qed

text \<open>
  C4, as amended. Take a store whose users have distinct ids, and the store that a successful
  \<open>approveTask\<close> leaves once its writes are applied. Every stored user other than the assigned
  user is then as follows. A user of the leader-plus-managers set who held a pending approval
  for the task has lost its first occurrence and nothing else: the notifications before it
  (none of them pending for the task) and after it are kept, in order. Every other user, in the
  set or not, is as before. The assigned user is excepted because the approval appends two
  notifications to that user, also when that user is the leader or a manager.
\<close>

theorem approveTask_clears_managers:
  assumes "approveTask e st usr taskId userId = (effs, Inr tsk')"
    and "Task_findOne st taskId userId = Some tsk"
    and "getGroup st usr (tg_id (t_group tsk)) = Some grp"
    and "distinct (map u_id (users st))"
  shows "length (users (commit effs st)) = length (users st) \<and>
         (\<forall>i<length (users st).
            u_id (users st ! i) \<noteq> userId \<longrightarrow>
              (if u_id (users st ! i) \<in> set (map fst (g_managers grp) @ [g_leader grp]) \<and>
                  holdsPending (t_id tsk) (users st ! i)
               then \<exists>xs n ys.
                      u_notifications (users st ! i) = xs @ n # ys \<and>
                      (\<forall>x\<in>set xs. \<not> pendingApproval (t_id tsk) x) \<and>
                      pendingApproval (t_id tsk) n \<and>
                      users (commit effs st) ! i = (users st ! i)\<lparr>u_notifications := xs @ ys\<rparr>
               else users (commit effs st) ! i = users st ! i))"
proof -
  from approveTask_InrD [OF assms(1)] assms(2,3) obtain firstManager rest au where
    pre: "notEmpty e taskId" "isUUID e taskId" "notEmpty e userId" "isUUID e userId"
      "Task_findOne st taskId userId = Some tsk"
      "getGroup st usr (tg_id (t_group tsk)) = Some grp"
      "\<not> canNotEditTasks grp usr JUndefined"
      "\<not> approved (tg_approval (t_group tsk))"
      "User_find st (map fst (g_managers grp) @ [g_leader grp]) = firstManager # rest"
      "User_findById st userId = Some au"
    by auto
  let ?ids = "map fst (g_managers grp) @ [g_leader grp]"
  let ?P = "\<lambda>u. u_id u \<in> set ?ids \<and> holdsPending (t_id tsk) u"
  let ?ds = "map (clearPending (t_id tsk)) (filter ?P (users st))"
  have conv: "map (\<lambda>m. SaveUser (clearPending (t_id tsk) m))
                (filter (holdsPending (t_id tsk)) (User_find st ?ids)) = map SaveUser ?ds"
    by (simp add: User_find_def)
  from assms(1) have e1: "effs = fst (approveTask e st usr taskId userId)" by simp
  have "\<exists>d ns. effs = map SaveUser ?ds @ [SaveTask d, SaveUser (au\<lparr>u_notifications := ns\<rparr>)]"
    unfolding e1 approveTask_success [OF pre] fst_conv conv
    by (intro exI) (rule refl)
  then obtain d ns where effs: "effs = map SaveUser ?ds @ [SaveTask d, SaveUser (au\<lparr>u_notifications := ns\<rparr>)]"
    by (elim exE)
  let ?a = "au\<lparr>u_notifications := ns\<rparr>"
  have a: "u_id ?a = userId"
    using User_findById_id [OF pre(10)] by simp
  have after: "users (commit effs st) =
      map (\<lambda>x. if u_id x = userId then ?a else
                case find (\<lambda>d. u_id d = u_id x) (rev ?ds) of None \<Rightarrow> x | Some d \<Rightarrow> d) (users st)"
    unfolding effs users_commit fold_User_save
    by (simp add: User_save_def a u_id_lastSave del: rev_map)
  have each: "i < length (users st) \<Longrightarrow> u_id (users st ! i) \<noteq> userId \<Longrightarrow>
      users (commit effs st) ! i = (if ?P (users st ! i) then clearPending (t_id tsk) (users st ! i) else users st ! i)" for i
    unfolding after
    using find_saved [OF assms(4), of "users st ! i" "clearPending (t_id tsk)" ?P]
    by (simp add: u_id_clearPending del: rev_map)
  have len: "length (users (commit effs st)) = length (users st)"
    unfolding after by simp
  show ?thesis
  proof (intro conjI allI impI)
    show "length (users (commit effs st)) = length (users st)" by (rule len)
  next
    fix i assume i: "i < length (users st)" "u_id (users st ! i) \<noteq> userId"
    show "if u_id (users st ! i) \<in> set ?ids \<and> holdsPending (t_id tsk) (users st ! i)
               then \<exists>xs n ys.
                      u_notifications (users st ! i) = xs @ n # ys \<and>
                      (\<forall>x\<in>set xs. \<not> pendingApproval (t_id tsk) x) \<and>
                      pendingApproval (t_id tsk) n \<and>
                      users (commit effs st) ! i = (users st ! i)\<lparr>u_notifications := xs @ ys\<rparr>
               else users (commit effs st) ! i = users st ! i"
    proof (cases "?P (users st ! i)")
      case True
      then have "holdsPending (t_id tsk) (users st ! i)" by simp
      from clearPending_holds [OF this] each [OF i] True show ?thesis by auto
    next
      case False
      with each [OF i] show ?thesis by auto
    qed
  qed
qed

theorem approveTask_clears_managers_witness:
  "distinct (map u_id (users (exampleStore [userM, userL, userA] [linkedTask True False]))) \<and>
   approveTask exampleEnv (exampleStore [userM, userL, userA] [linkedTask True False]) userL ''c'' ''A'' =
     ([SaveUser clearedL, SaveTask (approvedTask ''L''), SaveUser (notifiedA ''L'' ''up'')],
      Inr (approvedTask ''L'')) \<and>
   users (commit [SaveUser clearedL, SaveTask (approvedTask ''L''), SaveUser (notifiedA ''L'' ''up'')]
            (exampleStore [userM, userL, userA] [linkedTask True False])) =
     [userM, clearedL, notifiedA ''L'' ''up''] \<and>
   u_notifications userM = [JNull, JObj [(''type'', JStr ''GROUP_TASK_APPROVAL'')]] \<and>
   u_notifications userL = [JUndefined, pendingFor ''T'' ''down'', pendingFor ''T'' ''up''] \<and>
   u_notifications clearedL = [JUndefined, pendingFor ''T'' ''up'']"
proof -
  let ?st = "exampleStore [userM, userL, userA] [linkedTask True False]"
  have d: "distinct (map u_id (users ?st))"
    by (simp add: example_ids)
  show ?thesis
    using approveTask_clears_managers [OF example_approve_by_leader example_lookups(1,2) d]
    by (simp add: example_approve_by_leader commit_def User_save_def example_ids)
       (simp add: clearedL_def userL_def userM_def mkUser_def)
qed

text \<open>
  The claim as it was stated fails when the assigned user belongs to the set: manager \<open>M\<close> is
  the assignee and holds no pending approval for the task, and after the leader's approval
  \<open>M\<close> holds four notifications instead of two.
\<close>

theorem approveTask_clears_managers_counterexample:
  "approveTask exampleEnv (exampleStore [userM, userL, userA] [linkedTaskM]) userL ''c'' ''M'' =
     ([SaveUser clearedL, SaveTask approvedTaskM, SaveUser notifiedM], Inr approvedTaskM) \<and>
   User_find (exampleStore [userM, userL, userA] [linkedTaskM])
     (map fst (g_managers exampleGroup) @ [g_leader exampleGroup]) = [userM, userL] \<and>
   \<not> holdsPending ''T'' userM \<and>
   users (commit [SaveUser clearedL, SaveTask approvedTaskM, SaveUser notifiedM]
            (exampleStore [userM, userL, userA] [linkedTaskM])) = [notifiedM, clearedL, userA] \<and>
   length (u_notifications userM) = 2 \<and>
   length (u_notifications notifiedM) = 4"
  by (simp add: example_approve_of_manager example_lookups example_holds commit_def User_save_def example_ids)
     (simp add: notifiedM_def userM_def mkUser_def)

text \<open>
  C5. \<open>canNotEditTasks\<close> is false, that is the acting user may edit, exactly when the acting
  user is the group's leader, or the group's managers object holds a true value under the
  acting user's id, or an assigned user id is passed that is truthy (a non-empty string) and
  equal to the acting user's id.
\<close>

theorem canEdit_iff:
  "\<not> canNotEditTasks grp usr assignedUserId \<longleftrightarrow>
     g_leader grp = u_id usr \<or>
     map_of (g_managers grp) (u_id usr) = Some True \<or>
     (truthy assignedUserId \<and> assignedUserId = JStr (u_id usr))"
  by (auto simp: canNotEditTasks_def Let_def split: option.splits)

theorem canEdit_iff_witness:
  "\<not> canNotEditTasks exampleGroup userM JUndefined \<and>
   \<not> canNotEditTasks exampleGroup userL JUndefined \<and>
   \<not> canNotEditTasks exampleGroup userA (JStr ''A'') \<and>
   canNotEditTasks exampleGroup userA JUndefined \<and>
   canNotEditTasks exampleGroup userA (JStr ''M'')"
  using canEdit_iff [of exampleGroup userM JUndefined] canEdit_iff [of exampleGroup userL JUndefined]
    canEdit_iff [of exampleGroup userA "JStr ''A''"] canEdit_iff [of exampleGroup userA JUndefined]
    canEdit_iff [of exampleGroup userA "JStr ''M''"]
  by (simp add: example_defs)

text \<open>
  C6, as amended. An \<open>assignTask\<close> call with valid parameters whose task resolves to one with
  no \<open>group.id\<close> throws \<open>NotAuthorized\<close> with the only-group-tasks-can-be-assigned message and
  writes nothing; the group is not even looked up.
\<close>

theorem assignTask_without_group:
  assumes "notEmpty e taskId" "isUUID e taskId" "notEmpty e assignedUserId" "isUUID e assignedUserId"
    and "findByIdOrAlias st taskId (u_id usr) = Some tsk"
    and "tg_id (t_group tsk) = None"
  shows "assignTask e st usr taskId assignedUserId =
           ([], Inl (NotAuthorized (t e ''onlyGroupTasksCanBeAssigned'' [] None)))"
  using assms by (simp add: assignTask_def checkParams_def optStr_def Let_def)

theorem assignTask_without_group_witness:
  "tg_id (t_group (plainTask ''p'' None)) = None \<and>
   assignTask exampleEnv (exampleStore [userM, userL, userA] [plainTask ''p'' None]) userL ''p'' ''A'' =
     ([], Inl (NotAuthorized ''onlyGroupTasksCanBeAssigned''))"
proof -
  let ?st = "exampleStore [userM, userL, userA] [plainTask ''p'' None]"
  have pre: "notEmpty exampleEnv ''p''" "isUUID exampleEnv ''p''" "notEmpty exampleEnv ''A''" "isUUID exampleEnv ''A''"
    "findByIdOrAlias ?st ''p'' (u_id userL) = Some (plainTask ''p'' None)"
    "tg_id (t_group (plainTask ''p'' None)) = None"
    by (simp_all add: plainTask_def)
  show ?thesis
    using assignTask_without_group [OF pre] pre(6) by simp
qed

text \<open>
  The claim as it was stated fails: member \<open>A\<close> assigns to themselves (which passes the
  authorization for any group) a task that has no group id, and the call is refused.
\<close>

theorem assignTask_without_group_counterexample:
  "findByIdOrAlias (exampleStore [userM, userL, userA] [plainTask ''p'' None]) ''p'' (u_id userA) =
     Some (plainTask ''p'' None) \<and>
   tg_id (t_group (plainTask ''p'' None)) = None \<and>
   \<not> canNotEditTasks exampleGroup userA (JStr ''A'') \<and>
   assignTask exampleEnv (exampleStore [userM, userL, userA] [plainTask ''p'' None]) userA ''p'' ''A'' =
     ([], Inl (NotAuthorized (t exampleEnv ''onlyGroupTasksCanBeAssigned'' [] None)))"
  by (simp add: assignTask_def checkParams_def optStr_def example_canEdit)
     (simp add: plainTask_def)

text \<open>
  C7. The handler never tests the result of \<^verbatim>\<open>User.findById\<close>. When the assigned user is gone
  and a linked task for that user id is still stored, \<open>approveTask\<close> does not end in
  \<open>NotFound\<close>: the task and the group are found, the leader's pending approval is cleared and
  saved, and the call then ends in a \<open>TypeError\<close> at \<^verbatim>\<open>assignedUser.addNotification\<close>.
\<close>

theorem approveTask_absent_user_crashes:
  "User_findById (exampleStore [userM, userL] [linkedTask True False]) ''A'' = None \<and>
   Task_findOne (exampleStore [userM, userL] [linkedTask True False]) ''c'' ''A'' = Some (linkedTask True False) \<and>
   approveTask exampleEnv (exampleStore [userM, userL] [linkedTask True False]) userL ''c'' ''A'' =
     ([SaveUser clearedL], Inl TypeError)"
  by (simp add: approveTask_def checkParams_def example_lookups example_canEdit
        getTaskDirection_eq removeOldNotifications_eq example_holds)
     (simp add: linkedTask_def)

text \<open>
  C8, as amended. Moving a group task is for the leader only. Take a \<open>groupMoveTask\<close> call with
  valid parameters whose task and group resolve. When the acting user is not the group's
  leader, a manager included, the call fails and saves nothing, so the group's order is
  untouched; the error is \<open>NotAuthorized\<close>, except for a completed todo, which is refused with
  \<open>BadRequest\<close> before the leader is looked at. When the acting user is the leader and the task
  is not a completed todo, the call saves the group, in which the order of the task's type is
  what \<open>moveTask\<close> makes of the old one, the orders of the other types and the other fields
  are as before, and it responds with the new order.
\<close>

theorem groupMoveTask_leader_only:
  assumes "notEmpty e taskId" "notEmpty e position" "isNumeric e position"
    and "Task_findOne_id st taskId = Some tsk"
    and "getGroup st usr (tg_id (t_group tsk)) = Some grp"
  shows "(g_leader grp \<noteq> u_id usr \<longrightarrow>
            groupMoveTask e st usr taskId position =
              ([], Inl (if t_type tsk = Todo \<and> t_completed tsk
                        then BadRequest (t e ''cantMoveCompletedTodo'' [] None)
                        else NotAuthorized (t e ''onlyGroupLeaderCanEditTasks'' [] None)))) \<and>
         (g_leader grp = u_id usr \<and> \<not> (t_type tsk = Todo \<and> t_completed tsk) \<longrightarrow>
            (\<exists>grp'.
               groupMoveTask e st usr taskId position =
                 ([SaveGroup grp'],
                  Inr (moveTask e (bucket (t_type tsk) (g_tasksOrder grp)) (t_id tsk) (toNumber e position))) \<and>
               bucket (t_type tsk) (g_tasksOrder grp') =
                 moveTask e (bucket (t_type tsk) (g_tasksOrder grp)) (t_id tsk) (toNumber e position) \<and>
               (\<forall>ty. ty \<noteq> t_type tsk \<longrightarrow> bucket ty (g_tasksOrder grp') = bucket ty (g_tasksOrder grp)) \<and>
               g_id grp' = g_id grp \<and> g_leader grp' = g_leader grp \<and>
               g_managers grp' = g_managers grp \<and> g_name grp' = g_name grp))"
proof -
  have get: "bucket ty (bucket_update ty ids ord) = ids" for ty ids ord
    by (cases ty) simp_all
  have frame: "ty \<noteq> ty' \<Longrightarrow> bucket ty (bucket_update ty' ids ord) = bucket ty ord" for ty ty' ids ord
    by (cases ty; cases ty') simp_all
  show ?thesis
    using assms by (simp add: groupMoveTask_def checkParams_def Let_def get frame)
qed

theorem groupMoveTask_leader_only_witness:
  "map_of (g_managers exampleGroup) (u_id userM) = Some True \<and>
   groupMoveTask exampleEnv (exampleStore [userM, userL, userA] [plainTask ''c'' (Some ''G'')]) userM ''c'' ''0'' =
     ([], Inl (NotAuthorized ''onlyGroupLeaderCanEditTasks'')) \<and>
   groupMoveTask exampleEnv (exampleStore [userM, userL, userA] [plainTask ''c'' (Some ''G'')]) userL ''c'' ''0'' =
     ([SaveGroup (exampleGroup\<lparr>g_tasksOrder := (g_tasksOrder exampleGroup)\<lparr>todos := [''c'', ''b'']\<rparr>\<rparr>)],
      Inr [''c'', ''b'']) \<and>
   todos (g_tasksOrder exampleGroup) = [''b'', ''c'']"
proof -
  let ?st = "exampleStore [userM, userL, userA] [plainTask ''c'' (Some ''G'')]"
  have pre: "notEmpty exampleEnv ''c''" "notEmpty exampleEnv ''0''" "isNumeric exampleEnv ''0''"
    "Task_findOne_id ?st ''c'' = Some (plainTask ''c'' (Some ''G''))"
    "getGroup ?st u (tg_id (t_group (plainTask ''c'' (Some ''G'')))) = Some exampleGroup" for u
    by (simp_all add: Task_findOne_id_def plainTask_def)
  have run: "groupMoveTask exampleEnv ?st userM ''c'' ''0'' = ([], Inl (NotAuthorized ''onlyGroupLeaderCanEditTasks''))"
    "groupMoveTask exampleEnv ?st userL ''c'' ''0'' =
       ([SaveGroup (exampleGroup\<lparr>g_tasksOrder := (g_tasksOrder exampleGroup)\<lparr>todos := [''c'', ''b'']\<rparr>\<rparr>)],
        Inr [''c'', ''b''])"
    by (simp_all add: groupMoveTask_def checkParams_def pre(4) Let_def)
       (simp_all add: plainTask_def exampleGroup_def example_ids)
  show ?thesis
    using groupMoveTask_leader_only [OF pre(1-4) pre(5) [of userM]]
      groupMoveTask_leader_only [OF pre(1-4) pre(5) [of userL]]
    by (simp add: run) (simp add: exampleGroup_def example_ids)
qed

text \<open>
  The claim as it was stated fails for a completed todo: manager \<open>M\<close>, who is not the leader,
  gets \<open>BadRequest\<close>, not \<open>NotAuthorized\<close>.
\<close>

theorem groupMoveTask_leader_only_counterexample:
  "g_leader exampleGroup \<noteq> u_id userM \<and>
   map_of (g_managers exampleGroup) (u_id userM) = Some True \<and>
   groupMoveTask exampleEnv
     (exampleStore [userM, userL, userA] [plainTask ''c'' (Some ''G'')\<lparr>t_completed := True\<rparr>]) userM ''c'' ''0'' =
     ([], Inl (BadRequest ''cantMoveCompletedTodo''))"
  by (simp add: groupMoveTask_def checkParams_def Task_findOne_id_def)
     (simp add: plainTask_def exampleGroup_def example_ids)

text \<open>
  C9. After a successful \<open>taskNeedsWork\<close> the task is the stored one with \<open>requested\<close> false
  and \<open>requestedDate\<close> cleared, and it is what the last write saves. The write before it saves
  the assignee with exactly one notification appended: a \<open>GROUP_TASK_NEEDS_WORK\<close> whose message
  is the translation of \<open>taskNeedsWork\<close> in the language of the assignee's own preferences, and
  which carries the task's id and text, the group's id and name, and the acting user's id and
  name.
\<close>

theorem taskNeedsWork_effect:
  assumes "taskNeedsWork e st usr taskId userId = (effs, Inr tsk')"
    and "Task_findOne st taskId userId = Some tsk"
    and "getGroup st usr (tg_id (t_group tsk)) = Some grp"
    and "User_findById st userId = Some au"
  shows "tsk' = tsk\<lparr>t_group := (t_group tsk)\<lparr>tg_approval := (tg_approval (t_group tsk))
                   \<lparr>requested := False, requestedDate := None\<rparr>\<rparr>\<rparr> \<and>
         requested (tg_approval (t_group tsk')) = False \<and>
         requestedDate (tg_approval (t_group tsk')) = None \<and>
         last effs = SaveTask tsk' \<and>
         last (butlast effs) = SaveUser (au\<lparr>u_notifications := u_notifications au @
           [JObj [(''type'', JStr ''GROUP_TASK_NEEDS_WORK''),
                  (''data'', JObj
                     [(''message'', JStr (t e ''taskNeedsWork''
                                            [(''taskText'', t_text tsk), (''managerName'', p_name (u_profile usr))]
                                            (language (u_preferences au)))),
                      (''task'', JObj [(''id'', JStr (t_id tsk)), (''text'', JStr (t_text tsk))]),
                      (''group'', JObj [(''id'', JStr (g_id grp)), (''name'', JStr (g_name grp))]),
                      (''manager'', JObj [(''id'', JStr (u_id usr)), (''name'', JStr (p_name (u_profile usr)))])])]]\<rparr>)"
proof -
  from taskNeedsWork_InrD [OF assms(1)] assms(2-4) have
    pre: "notEmpty e taskId" "isUUID e taskId" "notEmpty e userId" "isUUID e userId"
      "Task_findOne st taskId userId = Some tsk"
      "getGroup st usr (tg_id (t_group tsk)) = Some grp"
      "\<not> canNotEditTasks grp usr JUndefined"
      "\<not> approved (tg_approval (t_group tsk))"
      "requested (tg_approval (t_group tsk))"
      "User_findById st userId = Some au"
    by auto
  show ?thesis
    using assms(1) unfolding taskNeedsWork_success [OF pre] by (auto simp: butlast_append)
qed

theorem taskNeedsWork_effect_witness:
  "language (u_preferences userL) = Some ''en'' \<and> language (u_preferences userA) = Some ''de'' \<and>
   last (fst (taskNeedsWork exampleEnv (exampleStore [userM, userL, userA] [linkedTask True False]) userL ''c'' ''A'')) =
     SaveTask (linkedTask False False) \<and>
   last (butlast (fst (taskNeedsWork exampleEnv (exampleStore [userM, userL, userA] [linkedTask True False]) userL ''c'' ''A''))) =
     SaveUser (userA\<lparr>u_notifications :=
       [JObj [(''type'', JStr ''GROUP_TASK_NEEDS_WORK''),
              (''data'', JObj
                 [(''message'', JStr ''taskNeedsWork/de''),
                  (''task'', JObj [(''id'', JStr ''T''), (''text'', JStr ''txt'')]),
                  (''group'', JObj [(''id'', JStr ''G''), (''name'', JStr ''grp'')]),
                  (''manager'', JObj [(''id'', JStr ''L''), (''name'', JStr ''L'')])])]]\<rparr>)"
proof -
  let ?st = "exampleStore [userM, userL, userA] [linkedTask True False]"
  have pre: "notEmpty exampleEnv ''c''" "isUUID exampleEnv ''c''" "notEmpty exampleEnv ''A''" "isUUID exampleEnv ''A''"
    "\<not> approved (tg_approval (t_group (linkedTask True False)))"
    "requested (tg_approval (t_group (linkedTask True False)))"
    by (simp_all add: linkedTask_def)
  have run: "taskNeedsWork exampleEnv ?st userL ''c'' ''A'' =
               (fst (taskNeedsWork exampleEnv ?st userL ''c'' ''A''), Inr (linkedTask False False))"
    unfolding taskNeedsWork_success [OF pre(1-4) example_lookups(1,2) example_canEdit(1) pre(5,6) example_lookups(3)]
    by (simp add: linkedTask_def)
  show ?thesis
    using taskNeedsWork_effect [OF run example_lookups(1,2) example_lookups(3)]
    by (simp add: example_defs)
qed

text \<open>
  C10. The scans for the pending approval never fail. The callback returns false on \<^verbatim>\<open>null\<close>,
  on \<^verbatim>\<open>undefined\<close> and on an object whose \<^verbatim>\<open>data\<close> is missing or falsy, it returns a boolean
  on every value, and it returns true only on an object of type \<open>GROUP_TASK_APPROVAL\<close> whose
  \<^verbatim>\<open>data.taskId\<close> is the task's id. \<open>findIndex\<close> with it returns an index on every list, the
  loop over the managers ends without an error on every list of users, and a user it changes
  has lost one entry that the callback accepts and nothing else. A \<open>TypeError\<close> of
  \<open>approveTask\<close> or \<open>taskNeedsWork\<close> therefore never comes from the notifications: it means
  that the assigned user is absent or, for \<open>approveTask\<close>, that the lookup of the
  leader-plus-managers set returned nobody.
\<close>

theorem scans_total:
  "findNotification taskId JNull = Inr False \<and>
   findNotification taskId JUndefined = Inr False \<and>
   (\<not> truthy (case map_of kvs ''data'' of None \<Rightarrow> JUndefined | Some d \<Rightarrow> d) \<longrightarrow>
      findNotification taskId (JObj kvs) = Inr False) \<and>
   (\<exists>b. findNotification taskId n = Inr b) \<and>
   (findNotification taskId n = Inr True \<longrightarrow>
      (\<exists>nkvs dkvs. n = JObj nkvs \<and> map_of nkvs ''data'' = Some (JObj dkvs) \<and>
         map_of dkvs ''taskId'' = Some (JStr taskId) \<and>
         map_of nkvs ''type'' = Some (JStr ''GROUP_TASK_APPROVAL''))) \<and>
   (\<exists>i. findIndex (findNotification taskId) ns = Inr i) \<and>
   (\<exists>managers' saves.
      removeOldNotifications taskId managers = (managers', saves, None) \<and>
      length managers' = length managers \<and>
      (\<forall>i<length managers.
         managers' ! i = managers ! i \<or>
         (\<exists>xs x ys. u_notifications (managers ! i) = xs @ x # ys \<and>
            findNotification taskId x = Inr True \<and>
            managers' ! i = (managers ! i)\<lparr>u_notifications := xs @ ys\<rparr>))) \<and>
   (snd (approveTask e st usr tid uid) = Inl TypeError \<longrightarrow>
      User_findById st uid = None \<or>
      (\<exists>tsk grp. Task_findOne st tid uid = Some tsk \<and>
         getGroup st usr (tg_id (t_group tsk)) = Some grp \<and>
         User_find st (map fst (g_managers grp) @ [g_leader grp]) = [])) \<and>
   (snd (taskNeedsWork e st usr tid uid) = Inl TypeError \<longrightarrow> User_findById st uid = None)"
proof -
  have a: "findNotification taskId JNull = Inr False" "findNotification taskId JUndefined = Inr False"
    by (simp_all add: findNotification_def)
  have b: "\<not> truthy (case map_of kvs ''data'' of None \<Rightarrow> JUndefined | Some d \<Rightarrow> d) \<longrightarrow>
           findNotification taskId (JObj kvs) = Inr False"
    by (simp add: findNotification_def)
  have c: "\<exists>b. findNotification taskId n = Inr b"
    by (simp add: findNotification_total)
  have d: "findNotification taskId n = Inr True \<longrightarrow>
      (\<exists>nkvs dkvs. n = JObj nkvs \<and> map_of nkvs ''data'' = Some (JObj dkvs) \<and>
         map_of dkvs ''taskId'' = Some (JStr taskId) \<and>
         map_of nkvs ''type'' = Some (JStr ''GROUP_TASK_APPROVAL''))"
    using pendingApproval_iff [of taskId n] by (simp add: pendingApproval_def)
  have f: "\<exists>i. findIndex (findNotification taskId) ns = Inr i"
    by (cases ns taskId rule: scan_cases) (simp_all add: findIndex_def findIndexFrom_none findIndexFrom_first)
  have each: "map (clearPending taskId) managers ! i = managers ! i \<or>
         (\<exists>xs x ys. u_notifications (managers ! i) = xs @ x # ys \<and>
            findNotification taskId x = Inr True \<and>
            map (clearPending taskId) managers ! i = (managers ! i)\<lparr>u_notifications := xs @ ys\<rparr>)"
    if "i < length managers" for i
  proof (cases "holdsPending taskId (managers ! i)")
    case True
    from clearPending_holds [OF True] that show ?thesis
      by (auto simp: pendingApproval_def)
  next
    case False
    with that show ?thesis by (simp add: clearPending_id)
  qed
  then have g: "\<exists>managers' saves.
      removeOldNotifications taskId managers = (managers', saves, None) \<and>
      length managers' = length managers \<and>
      (\<forall>i<length managers.
         managers' ! i = managers ! i \<or>
         (\<exists>xs x ys. u_notifications (managers ! i) = xs @ x # ys \<and>
            findNotification taskId x = Inr True \<and>
            managers' ! i = (managers ! i)\<lparr>u_notifications := xs @ ys\<rparr>))"
    by (simp add: removeOldNotifications_eq)
  have h: "snd (approveTask e st usr tid uid) = Inl TypeError \<longrightarrow>
      User_findById st uid = None \<or>
      (\<exists>tsk grp. Task_findOne st tid uid = Some tsk \<and>
         getGroup st usr (tg_id (t_group tsk)) = Some grp \<and>
         User_find st (map fst (g_managers grp) @ [g_leader grp]) = [])"
    by (auto simp: approveTask_def checkParams_def Let_def getTaskDirection_eq removeOldNotifications_eq
             split: if_splits option.splits list.splits)
  have k: "snd (taskNeedsWork e st usr tid uid) = Inl TypeError \<longrightarrow> User_findById st uid = None"
    by (auto simp: taskNeedsWork_def checkParams_def Let_def removeOldNotifications_eq
             split: if_splits option.splits)
  from a b c d f g h k show ?thesis by blast
qed

theorem scans_total_witness:
  "map_of [(''type'', JStr ''GROUP_TASK_APPROVAL'')] ''data'' = None \<and>
   findNotification ''T'' (JObj [(''type'', JStr ''GROUP_TASK_APPROVAL'')]) = Inr False \<and>
   findNotification ''T'' (pendingFor ''T'' ''down'') = Inr True \<and>
   findIndex (findNotification ''T'')
     [JNull, JUndefined, JObj [(''type'', JStr ''GROUP_TASK_APPROVAL'')], pendingFor ''T'' ''down''] = Inr 3 \<and>
   removeOldNotifications ''T'' [userM] = ([userM], [], None)"
  using scans_total [of "''T''" "[(''type'', JStr ''GROUP_TASK_APPROVAL'')]" "pendingFor ''T'' ''down''"
          "[JNull, JUndefined, JObj [(''type'', JStr ''GROUP_TASK_APPROVAL'')], pendingFor ''T'' ''down'']"
          "[userM]" exampleEnv "exampleStore [userM] []" userM "''c''" "''A''"]
  by (simp add: findNotification_def findIndex_def pendingFor_def userM_def mkUser_def)

end
